theory Spec2Isabelle
  imports Complex_Main "HOL-Library.AList" "HOL-Library.Sublist" "HOL-Library.Multiset"
begin

section \<open>Configuration constants (app_auth.py, lines 25-35)\<close>

definition CHUNK_SIZE :: nat where "CHUNK_SIZE = 300"
definition CHUNK_OVERLAP :: nat where "CHUNK_OVERLAP = 30"

text \<open>The step of the slicing loop, \<^verbatim>\<open>CHUNK_SIZE - CHUNK_OVERLAP\<close>.\<close>

definition stride :: nat where "stride = CHUNK_SIZE - CHUNK_OVERLAP"

section \<open>Chunker: \<^verbatim>\<open>chunk_text\<close> (app_auth.py, lines 664-677)\<close>

text \<open>
  A Python string is a sequence of Unicode code points; a document text is the list of their
  numbers (what \<^verbatim>\<open>ord\<close> returns), as integers. \<open>ustr\<close> gives the code points of an ASCII
  literal.
\<close>

type_synonym pystr = "int list"

definition ustr :: "string \<Rightarrow> pystr" where
  "ustr s = map of_char s"

text \<open>
  \<^verbatim>\<open>str.isspace\<close> of one code point, which is what \<^verbatim>\<open>str.strip()\<close> removes: the controls
  U+0009 to U+000D and U+001C to U+001F, the blank, U+0085, U+00A0, U+1680, U+2000 to U+200A,
  U+2028, U+2029, U+202F, U+205F and U+3000.
\<close>

definition isspace :: "int \<Rightarrow> bool" where
  "isspace c \<longleftrightarrow>
     (0x09 \<le> c \<and> c \<le> 0x0D) \<or> (0x1C \<le> c \<and> c \<le> 0x20) \<or> c = 0x85 \<or> c = 0xA0
     \<or> c = 0x1680 \<or> (0x2000 \<le> c \<and> c \<le> 0x200A) \<or> c = 0x2028 \<or> c = 0x2029
     \<or> c = 0x202F \<or> c = 0x205F \<or> c = 0x3000"

text \<open>\<^verbatim>\<open>s.strip()\<close>: leading and trailing whitespace removed.\<close>

definition strip :: "pystr \<Rightarrow> pystr" where
  "strip s = rev (dropWhile isspace (rev (dropWhile isspace s)))"

text \<open>\<^verbatim>\<open>s[i:j]\<close> for \<open>0 \<le> i \<le> j\<close>; a slice past the end is cut short, as in Python.\<close>

definition slice :: "pystr \<Rightarrow> nat \<Rightarrow> nat \<Rightarrow> pystr" where
  "slice s i j = take (j - i) (drop i s)"

text \<open>
  The body of \<^verbatim>\<open>for i in range(0, len(text), CHUNK_SIZE - CHUNK_OVERLAP)\<close>, started at \<open>i\<close>:
  the slice is stripped and kept only when more than 50 characters remain.
\<close>

function chunk_loop :: "pystr \<Rightarrow> nat \<Rightarrow> pystr list" where
  "chunk_loop text i =
     (if i < length text
      then (let chunk = strip (slice text i (i + CHUNK_SIZE))
            in (if length chunk > 50 then [chunk] else [])
               @ chunk_loop text (i + (CHUNK_SIZE - CHUNK_OVERLAP)))
      else [])"
  by pat_completeness auto
termination
  by (relation "measure (\<lambda>(text, i). length text - i)")
     (auto simp: CHUNK_SIZE_def CHUNK_OVERLAP_def)

declare chunk_loop.simps [simp del]

definition chunk_text :: "pystr \<Rightarrow> pystr list" where
  "chunk_text text =
     (if text = [] \<or> strip text = [] then []
      else (let text' = strip text; chunks = chunk_loop text' 0
            in if chunks \<noteq> [] then chunks else [text']))"

text \<open>
  Two fragments overlap by \<open>k\<close> characters when the last \<open>k\<close> characters of the first are the
  first \<open>k\<close> characters of the second.
\<close>

definition overlaps_by :: "nat \<Rightarrow> pystr \<Rightarrow> pystr \<Rightarrow> bool" where
  "overlaps_by k a b \<longleftrightarrow> k \<le> length a \<and> k \<le> length b \<and> drop (length a - k) a = take k b"

text \<open>
  A trimmed text has clean slices when no slice taken by the loop begins or ends with
  whitespace, so that stripping a slice changes nothing.
\<close>

definition clean_slices :: "pystr \<Rightarrow> bool" where
  "clean_slices t \<longleftrightarrow>
     (\<forall>k \<in> set [0 ..< Suc (length t div stride)].
        strip (slice t (k * stride) (k * stride + CHUNK_SIZE))
          = slice t (k * stride) (k * stride + CHUNK_SIZE))"

section \<open>Folder scanner (app_auth.py, lines 336-338 and 587-662)\<close>

text \<open>
  \<^verbatim>\<open>ALLOWED_EXTENSIONS = {"txt", "pdf", "docx"}\<close> and \<^verbatim>\<open>allowed_file\<close>: the name contains a
  dot and the part after the last dot, lowered, is an allowed extension. \<open>lower\<close> is
  \<^verbatim>\<open>str.lower\<close> on the ASCII letters, which is all that the comparison with the three
  extensions needs.
\<close>

definition ALLOWED_EXTENSIONS :: "string list" where
  "ALLOWED_EXTENSIONS = [''txt'', ''pdf'', ''docx'']"

definition lower_char :: "char \<Rightarrow> char" where
  "lower_char c = (let n = (of_char c :: nat) in if 65 \<le> n \<and> n \<le> 90 then char_of (n + 32) else c)"

definition lower :: "string \<Rightarrow> string" where
  "lower s = map lower_char s"

definition extension :: "string \<Rightarrow> string" where
  "extension filename = rev (takeWhile (\<lambda>c. c \<noteq> CHR ''.'') (rev filename))"

definition allowed_file :: "string \<Rightarrow> bool" where
  "allowed_file filename \<longleftrightarrow>
     CHR ''.'' \<in> set filename \<and> lower (extension filename) \<in> set ALLOWED_EXTENSIONS"

text \<open>
  The file system below a root, as the scanner sees it. A file carries what
  \<^verbatim>\<open>load_document\<close> returns for it (the text extraction is outside this core): \<open>Some\<close> text, or
  \<open>None\<close> when it raises. A directory carries its entries in \<^verbatim>\<open>os.listdir\<close> order;
  \<open>Locked_Dir\<close> is a directory whose listing raises. A path that does not exist is \<open>None\<close> of
  type \<open>fs_node option\<close>.
\<close>

datatype fs_node = File "pystr option" | Dir "(string \<times> fs_node) list" | Locked_Dir

fun isdir :: "fs_node \<Rightarrow> bool" where
  "isdir (File _) = False"
| "isdir (Dir _) = True"
| "isdir Locked_Dir = True"

text \<open>
  Python dictionaries keep insertion order; they are association lists updated with
  \<^const>\<open>AList.update\<close>, which replaces the value of a key in place and appends a new key.
  \<^verbatim>\<open>load_documents_from_folder\<close> (lines 587-625): a missing folder, or one that cannot be listed,
  gives no documents; entries with a name that is not allowed, directories and files that fail to
  load are skipped.
\<close>

type_synonym documents = "(string \<times> pystr) list"

fun load_file :: "string \<times> fs_node \<Rightarrow> documents \<Rightarrow> documents" where
  "load_file (filename, node) documents =
     (if \<not> allowed_file filename then documents
      else if isdir node then documents
      else (case node of File (Some content) \<Rightarrow> AList.update filename content documents
                       | _ \<Rightarrow> documents))"

fun load_documents_from_folder :: "fs_node option \<Rightarrow> documents" where
  "load_documents_from_folder (Some (Dir files)) = fold load_file files []"
| "load_documents_from_folder _ = []"

text \<open>
  \<^verbatim>\<open>scan_folder_structure\<close> (lines 627-662). \<open>scan_subfolder\<close> is the body of the loop of lines
  645-651. A root that does not exist, or whose listing raises (the \<^verbatim>\<open>except\<close> of line 659),
  gives the empty structure.
\<close>

fun scan_subfolder :: "string \<times> fs_node \<Rightarrow> (string \<times> documents) list \<Rightarrow> (string \<times> documents) list" where
  "scan_subfolder (item, node) structure =
     (if isdir node
      then (let docs = load_documents_from_folder (Some node)
            in if docs \<noteq> [] then AList.update item docs structure else structure)
      else structure)"

fun scan_folder_structure :: "fs_node option \<Rightarrow> (string \<times> documents) list" where
  "scan_folder_structure (Some (Dir items)) =
     (let has_subdirs = list_ex (\<lambda>(item, node). isdir node) items
      in if has_subdirs then fold scan_subfolder items []
         else (let docs = load_documents_from_folder (Some (Dir items))
               in if docs \<noteq> [] then AList.update ''general'' docs [] else []))"
| "scan_folder_structure _ = []"

text \<open>
  The entries of a root that are directories.
\<close>

definition subdirs_only :: "(string \<times> fs_node) list \<Rightarrow> (string \<times> fs_node) list" where
  "subdirs_only items = filter (\<lambda>(item, node). isdir node) items"


section \<open>Index state: the globals of app_auth.py, lines 118-127\<close>

text \<open>
  An embedding vector is a list of reals: the arithmetic of NumPy and FAISS is taken as exact.
\<close>

type_synonym vec = "real list"

text \<open>
  The exceptions of the index core. An \<^verbatim>\<open>IndexBuildError\<close> carries which step raised it
  (lines 725, 768, 783, 792). The others are what the body of \<^verbatim>\<open>retrieve_hierarchical\<close> can
  raise: the encoder failing, FAISS refusing a position (\<^verbatim>\<open>RuntimeError\<close>), NumPy refusing
  shapes or an empty maximum (\<^verbatim>\<open>ValueError\<close>), a list index out of range, a missing key.
\<close>

datatype build_failure = ModelLoadFailed | NoValidChunks | EmbeddingFailed | FaissFailed

datatype py_error = IndexBuildError build_failure | EncodeError | RuntimeError | ValueError
  | IndexError | KeyError

text \<open>
  The dictionaries of lines 744-749 and 758-761 and of line 127, and the globals as one record.
  \<^verbatim>\<open>global_index\<close> is the list of vectors the FAISS flat index holds, in insertion order;
  \<^verbatim>\<open>global_embed_model\<close> is the name of the loaded model; \<^verbatim>\<open>folder_indices\<close> maps a folder
  key to the positions of its chunks. Times are natural numbers.
\<close>

record chunk_meta =
  meta_folder :: string
  meta_filename :: string
  meta_base_folder :: string
  meta_timestamp :: nat

record folder_stats =
  stat_chunks :: nat
  stat_files :: nat

record stats =
  total_chunks :: nat
  total_files :: nat
  folders :: "(string \<times> folder_stats) list"

record app_state =
  global_chunks :: "pystr list"
  global_index :: "vec list option"
  global_embed_model :: "string option"
  chunk_metadata :: "chunk_meta list"
  folder_indices :: "(string \<times> nat list) list"
  last_index_update :: "nat option"
  index_stats :: stats

definition empty_stats :: stats where
  "empty_stats = \<lparr>total_chunks = 0, total_files = 0, folders = []\<rparr>"

definition initial_state :: app_state where
  "initial_state = \<lparr>global_chunks = [], global_index = None, global_embed_model = None,
     chunk_metadata = [], folder_indices = [], last_index_update = None,
     index_stats = empty_stats\<rparr>"

text \<open>
  What a build and a retrieval find outside the program: the two roots, whether a model of a given
  name loads, what a loaded model returns for a batch of texts (\<open>None\<close> when it raises), whether
  FAISS fails, the clock (\<open>clock w k\<close> is what the \<open>k\<close>-th reading of
  \<^verbatim>\<open>datetime.now()\<close> in a build returns, counted from 0), and what \<^verbatim>\<open>np.argsort\<close>
  returns for an array. NumPy's default sort is not stable: among positions of equal values its
  order is not fixed, so \<^verbatim>\<open>np.argsort\<close> is not defined here but taken from the world, and
  \<open>is_argsort\<close> below says what every run of it satisfies.
\<close>

record world =
  default_docs :: "fs_node option"
  uploaded_docs :: "fs_node option"
  model_loads :: "string \<Rightarrow> bool"
  encode :: "string \<Rightarrow> pystr list \<Rightarrow> vec list option"
  faiss_fails :: bool
  clock :: "nat \<Rightarrow> nat"
  argsort :: "real list \<Rightarrow> nat list"

definition DEFAULT_DOCS_FOLDER :: string where "DEFAULT_DOCS_FOLDER = ''documents''"
definition UPLOAD_FOLDER :: string where "UPLOAD_FOLDER = ''uploaded_docs''"
definition TOP_K_FOLDERS :: int where "TOP_K_FOLDERS = 2"
definition TOP_K_CHUNKS :: int where "TOP_K_CHUNKS = 3"

text \<open>
  \<^verbatim>\<open>detect_language\<close> (lines 352-360) returns the same model name on both branches.
\<close>

definition detect_language :: "pystr list \<Rightarrow> string" where
  "detect_language docs = ''sentence-transformers/paraphrase-multilingual-MiniLM-L12-v2''"

section \<open>Index builder: \<^verbatim>\<open>rebuild_index\<close> (app_auth.py, lines 681-829)\<close>

text \<open>
  Lines 691-700: every folder of every root goes into \<^verbatim>\<open>all_structures\<close> under the key
  \<^verbatim>\<open>basename(base_folder) + "_" + folder_name\<close>, with its documents and its root.
\<close>

type_synonym structures = "(string \<times> documents \<times> string) list"

fun merge_structure :: "string \<Rightarrow> string \<times> documents \<Rightarrow> structures \<Rightarrow> structures" where
  "merge_structure base (folder_name, docs) all_structures =
     AList.update (base @ ''_'' @ folder_name) (docs, base) all_structures"

definition scan_all :: "world \<Rightarrow> structures" where
  "scan_all w =
     fold (merge_structure UPLOAD_FOLDER) (scan_folder_structure (uploaded_docs w))
       (fold (merge_structure DEFAULT_DOCS_FOLDER) (scan_folder_structure (default_docs w)) [])"

text \<open>
  Lines 713-715: the first two documents of every folder.
\<close>

definition sample_texts :: "structures \<Rightarrow> pystr list" where
  "sample_texts all_structures = concat (map (\<lambda>(key, docs, base). take 2 (map snd docs)) all_structures)"

text \<open>
  Lines 728-765. \<open>build_acc\<close> holds the four locals \<^verbatim>\<open>all_chunks\<close>, \<^verbatim>\<open>all_metadata\<close>,
  \<^verbatim>\<open>folder_indices_temp\<close> and \<^verbatim>\<open>stats\<close>. \<open>append_at\<close> is \<^verbatim>\<open>d[k].append(v)\<close> on a
  \<^verbatim>\<open>defaultdict(list)\<close>; \<open>add_chunk\<close> is the body of the loop over \<^verbatim>\<open>doc_chunks\<close>,
  \<open>process_doc\<close> that of the loop over documents (chunking a string raises nothing, so the
  \<^verbatim>\<open>except\<close> of line 754 is not reached), \<open>process_folder\<close> that of the loop over folders.
\<close>

record build_acc =
  all_chunks :: "pystr list"
  all_metadata :: "chunk_meta list"
  folder_indices_temp :: "(string \<times> nat list) list"
  acc_stats :: stats

definition append_at :: "'k \<Rightarrow> 'v \<Rightarrow> ('k \<times> 'v list) list \<Rightarrow> ('k \<times> 'v list) list" where
  "append_at k v d = AList.update k ((case map_of d k of None \<Rightarrow> [] | Some vs \<Rightarrow> vs) @ [v]) d"

definition add_chunk :: "world \<Rightarrow> string \<Rightarrow> string \<Rightarrow> string \<Rightarrow> pystr \<Rightarrow> build_acc \<Rightarrow> build_acc" where
  "add_chunk w folder_name base filename chunk acc =
     (let chunk_idx = length (all_chunks acc)
      in acc\<lparr>all_chunks := all_chunks acc @ [chunk],
             all_metadata := all_metadata acc @
               [\<lparr>meta_folder = folder_name, meta_filename = filename, meta_base_folder = base,
                 meta_timestamp = clock w chunk_idx\<rparr>],
             folder_indices_temp := append_at folder_name chunk_idx (folder_indices_temp acc)\<rparr>)"

fun process_doc :: "world \<Rightarrow> string \<Rightarrow> string \<Rightarrow> string \<times> pystr
    \<Rightarrow> build_acc \<times> pystr list \<times> nat \<Rightarrow> build_acc \<times> pystr list \<times> nat" where
  "process_doc w folder_name base (filename, content) (acc, folder_chunks, folder_files) =
     (let doc_chunks = chunk_text content
      in (fold (add_chunk w folder_name base filename) doc_chunks acc,
          folder_chunks @ doc_chunks, folder_files + 1))"

fun process_folder :: "world \<Rightarrow> string \<times> documents \<times> string \<Rightarrow> build_acc \<Rightarrow> build_acc" where
  "process_folder w (folder_name, docs, base) acc =
     (case fold (process_doc w folder_name base) docs (acc, [], 0) of
        (acc', folder_chunks, folder_files) \<Rightarrow>
          acc'\<lparr>acc_stats :=
            \<lparr>total_chunks = total_chunks (acc_stats acc') + length folder_chunks,
             total_files = total_files (acc_stats acc') + folder_files,
             folders = AList.update folder_name
                         \<lparr>stat_chunks = length folder_chunks, stat_files = folder_files\<rparr>
                         (folders (acc_stats acc'))\<rparr>\<rparr>)"

definition process_folders :: "world \<Rightarrow> structures \<Rightarrow> build_acc" where
  "process_folders w all_structures =
     fold (process_folder w) all_structures
       \<lparr>all_chunks = [], all_metadata = [], folder_indices_temp = [], acc_stats = empty_stats\<rparr>"

text \<open>
  Lines 770-783: the chunks are encoded in batches of 8 and the arrays stacked. \<open>vstack\<close> raises
  (\<open>None\<close>) when the rows do not all have one length.
\<close>

definition batch_size :: nat where "batch_size = 8"

function batches :: "'a list \<Rightarrow> 'a list list" where
  "batches xs = (if xs = [] then [] else take batch_size xs # batches (drop batch_size xs))"
  by pat_completeness auto
termination
  by (relation "measure length") (auto simp: batch_size_def)

declare batches.simps [simp del]

definition vstack :: "vec list list \<Rightarrow> vec list option" where
  "vstack arrays =
     (case concat arrays of
        [] \<Rightarrow> Some []
      | r # rs \<Rightarrow> if list_all (\<lambda>r'. length r' = length r) rs then Some (r # rs) else None)"

definition create_embeddings :: "world \<Rightarrow> string \<Rightarrow> pystr list \<Rightarrow> vec list option" where
  "create_embeddings w model chunks =
     (case those (map (encode w model) (batches chunks)) of
        None \<Rightarrow> None
      | Some all_embeddings \<Rightarrow> vstack all_embeddings)"

text \<open>
  Lines 786-792: \<^verbatim>\<open>faiss.normalize_L2\<close> divides every row by its Euclidean norm and leaves a
  zero row as it is; the flat index then holds the rows in order.
\<close>

definition normalize_L2 :: "vec \<Rightarrow> vec" where
  "normalize_L2 v = (let nr = sqrt (sum_list (map (\<lambda>x. x * x) v))
                     in if nr > 0 then map (\<lambda>x. x / nr) v else v)"

definition build_faiss :: "world \<Rightarrow> vec list \<Rightarrow> vec list option" where
  "build_faiss w embeddings = (if faiss_fails w then None else Some (map normalize_L2 embeddings))"

text \<open>
  \<^verbatim>\<open>rebuild_index\<close>, returning what it raises, if anything, and the globals after the call. They
  are assigned in two places only: the branch for an empty corpus (lines 704-709, which leaves
  \<^verbatim>\<open>last_index_update\<close> alone) and the end of a complete build (lines 795-801).
\<close>

definition rebuild_index :: "world \<Rightarrow> app_state \<Rightarrow> py_error option \<times> app_state" where
  "rebuild_index w st =
     (let all_structures = scan_all w in
      if all_structures = []
      then (None, st\<lparr>global_chunks := [], global_index := None, global_embed_model := None,
                      chunk_metadata := [], folder_indices := [], index_stats := empty_stats\<rparr>)
      else
        let embed_model_name = detect_language (sample_texts all_structures) in
        if \<not> model_loads w embed_model_name then (Some (IndexBuildError ModelLoadFailed), st)
        else
          let acc = process_folders w all_structures in
          if all_chunks acc = [] then (Some (IndexBuildError NoValidChunks), st)
          else
            (case create_embeddings w embed_model_name (all_chunks acc) of
               None \<Rightarrow> (Some (IndexBuildError EmbeddingFailed), st)
             | Some embeddings \<Rightarrow>
                 (case build_faiss w embeddings of
                    None \<Rightarrow> (Some (IndexBuildError FaissFailed), st)
                  | Some index \<Rightarrow>
                      (None, st\<lparr>global_chunks := all_chunks acc,
                                 global_index := Some index,
                                 global_embed_model := Some embed_model_name,
                                 chunk_metadata := all_metadata acc,
                                 folder_indices := folder_indices_temp acc,
                                 last_index_update := Some (clock w (length (all_chunks acc))),
                                 index_stats := acc_stats acc\<rparr>))))"

text \<open>
  \<^verbatim>\<open>safe_rebuild\<close> (lines 822-829) logs and swallows whatever \<^verbatim>\<open>rebuild_index\<close> raises.
\<close>

definition safe_rebuild :: "world \<Rightarrow> app_state \<Rightarrow> app_state" where
  "safe_rebuild w st = snd (rebuild_index w st)"


section \<open>Hierarchical retriever: \<^verbatim>\<open>retrieve_hierarchical\<close> (app_auth.py, lines 833-905)\<close>

text \<open>
  One entry of the returned list (lines 893-898).
\<close>

record result =
  res_chunk :: pystr
  res_folder :: string
  res_filename :: string
  res_score :: real

text \<open>
  \<^verbatim>\<open>xs[:k]\<close> for a Python integer \<open>k\<close>: a negative \<open>k\<close> drops from the end. Reading a list at
  a position and \<^verbatim>\<open>index.reconstruct\<close> raise out of range.
\<close>

definition py_prefix :: "int \<Rightarrow> 'a list \<Rightarrow> 'a list" where
  "py_prefix k xs = (if 0 \<le> k then take (nat k) xs else take (length xs - nat (- k)) xs)"

definition list_get :: "'a list \<Rightarrow> nat \<Rightarrow> py_error + 'a" where
  "list_get xs i = (if i < length xs then Inr (xs ! i) else Inl IndexError)"

definition reconstruct :: "vec list \<Rightarrow> nat \<Rightarrow> py_error + vec" where
  "reconstruct index idx = (if idx < length index then Inr (index ! idx) else Inl RuntimeError)"

text \<open>
  A list comprehension whose element expression can raise: the first exception ends it.
\<close>

fun map_err :: "('a \<Rightarrow> py_error + 'b) \<Rightarrow> 'a list \<Rightarrow> py_error + 'b list" where
  "map_err f [] = Inr []"
| "map_err f (x # xs) =
     (case f x of Inl e \<Rightarrow> Inl e
      | Inr y \<Rightarrow> (case map_err f xs of Inl e \<Rightarrow> Inl e | Inr ys \<Rightarrow> Inr (y # ys)))"

text \<open>
  \<^verbatim>\<open>np.dot(A, Q.T).flatten()\<close> for the rows \<open>A\<close> of a folder and the rows \<open>Q\<close> of the encoded
  query: one product for each pair, row by row; it raises when the lengths of the rows differ.
  \<^verbatim>\<open>np.max\<close> raises on an empty array.
\<close>

definition inner_product :: "vec \<Rightarrow> vec \<Rightarrow> real" where
  "inner_product a b = sum_list (map (\<lambda>(x, y). x * y) (zip a b))"

definition np_dot :: "vec list \<Rightarrow> vec list \<Rightarrow> py_error + real list" where
  "np_dot A Q =
     (if list_all (\<lambda>a. list_all (\<lambda>q. length a = length q) Q) A
      then Inr (concat (map (\<lambda>a. map (inner_product a) Q) A))
      else Inl ValueError)"

fun np_max :: "real list \<Rightarrow> py_error + real" where
  "np_max [] = Inl ValueError"
| "np_max (x # xs) = Inr (fold max xs x)"

text \<open>
  \<^verbatim>\<open>np.argsort(a)\<close> returns the positions of \<open>a\<close>, each once, in ascending order of their
  values: \<open>is_argsort a p\<close> says that \<open>p\<close> is such a result. The order among positions of equal
  values is left open, as NumPy leaves it. Line 881 reverses the result and takes a prefix.
\<close>

definition is_argsort :: "real list \<Rightarrow> nat list \<Rightarrow> bool" where
  "is_argsort a p \<longleftrightarrow> sort p = [0 ..< length a] \<and> sorted (map ((!) a) p)"

definition top_indices :: "world \<Rightarrow> real list \<Rightarrow> int \<Rightarrow> nat list" where
  "top_indices w similarities top_k_chunks = py_prefix top_k_chunks (rev (argsort w similarities))"

text \<open>
  Stage 1 (lines 851-866): the score of a folder is the highest similarity among its first 100
  chunks; folders with no positions are skipped; \<^verbatim>\<open>sorted(..., reverse=True)\<close> is stable and
  descending.
\<close>

definition folder_score :: "vec list \<Rightarrow> vec list \<Rightarrow> nat list \<Rightarrow> py_error + real" where
  "folder_score index q_vec chunk_indices =
     (case map_err (reconstruct index) (take 100 chunk_indices) of Inl e \<Rightarrow> Inl e
      | Inr folder_vecs \<Rightarrow>
          (case np_dot folder_vecs q_vec of Inl e \<Rightarrow> Inl e
           | Inr similarities \<Rightarrow> np_max similarities))"

fun score_folders :: "vec list \<Rightarrow> vec list \<Rightarrow> (string \<times> nat list) list
    \<Rightarrow> (string \<times> real) list \<Rightarrow> py_error + (string \<times> real) list" where
  "score_folders index q_vec [] folder_scores = Inr folder_scores"
| "score_folders index q_vec ((folder_name, chunk_indices) # rest) folder_scores =
     (if chunk_indices = [] then score_folders index q_vec rest folder_scores
      else (case folder_score index q_vec chunk_indices of Inl e \<Rightarrow> Inl e
            | Inr s \<Rightarrow> score_folders index q_vec rest (AList.update folder_name s folder_scores)))"

definition sorted_desc :: "(string \<times> real) list \<Rightarrow> (string \<times> real) list" where
  "sorted_desc items = sort_key (\<lambda>x. - snd x) items"

text \<open>
  Stage 2 (lines 869-898). \<open>collect\<close> is the loop over \<^verbatim>\<open>top_indices\<close> with the accumulated
  \<^verbatim>\<open>results\<close> and \<^verbatim>\<open>seen_chunks\<close>; \<open>search_folder\<close> is the body of the loop over the
  top folders, \<open>search_folders\<close> that loop.
\<close>

fun collect :: "app_state \<Rightarrow> nat list \<Rightarrow> real list \<Rightarrow> nat list
    \<Rightarrow> result list \<times> pystr set \<Rightarrow> py_error + result list \<times> pystr set" where
  "collect st chunk_indices similarities [] acc = Inr acc"
| "collect st chunk_indices similarities (local_idx # rest) (results, seen_chunks) =
     (case list_get chunk_indices local_idx of Inl e \<Rightarrow> Inl e
      | Inr global_idx \<Rightarrow>
     (case list_get (global_chunks st) global_idx of Inl e \<Rightarrow> Inl e
      | Inr chunk \<Rightarrow>
          if chunk \<in> seen_chunks
          then collect st chunk_indices similarities rest (results, seen_chunks)
          else (case list_get (chunk_metadata st) global_idx of Inl e \<Rightarrow> Inl e
                | Inr metadata \<Rightarrow>
                    (case list_get similarities local_idx of Inl e \<Rightarrow> Inl e
                     | Inr s \<Rightarrow>
                         collect st chunk_indices similarities rest
                           (results @ [\<lparr>res_chunk = chunk, res_folder = meta_folder metadata,
                                        res_filename = meta_filename metadata, res_score = s\<rparr>],
                            insert chunk seen_chunks)))))"

definition search_folder :: "app_state \<Rightarrow> world \<Rightarrow> vec list \<Rightarrow> vec list \<Rightarrow> int \<Rightarrow> string
    \<Rightarrow> result list \<times> pystr set \<Rightarrow> py_error + result list \<times> pystr set" where
  "search_folder st w index q_vec top_k_chunks folder_name acc =
     (case map_of (folder_indices st) folder_name of None \<Rightarrow> Inl KeyError
      | Some chunk_indices \<Rightarrow>
     (case map_err (list_get (global_chunks st)) chunk_indices of Inl e \<Rightarrow> Inl e
      | Inr folder_chunks \<Rightarrow>
     (case map_err (reconstruct index) chunk_indices of Inl e \<Rightarrow> Inl e
      | Inr folder_embeddings \<Rightarrow>
     (case np_dot folder_embeddings q_vec of Inl e \<Rightarrow> Inl e
      | Inr similarities \<Rightarrow>
          collect st chunk_indices similarities (top_indices w similarities top_k_chunks) acc))))"

fun search_folders :: "app_state \<Rightarrow> world \<Rightarrow> vec list \<Rightarrow> vec list \<Rightarrow> int \<Rightarrow> string list
    \<Rightarrow> result list \<times> pystr set \<Rightarrow> py_error + result list \<times> pystr set" where
  "search_folders st w index q_vec top_k_chunks [] acc = Inr acc"
| "search_folders st w index q_vec top_k_chunks (folder_name # rest) acc =
     (case search_folder st w index q_vec top_k_chunks folder_name acc of Inl e \<Rightarrow> Inl e
      | Inr acc' \<Rightarrow> search_folders st w index q_vec top_k_chunks rest acc')"

text \<open>
  The body of the \<^verbatim>\<open>try\<close> block (lines 846-901) for a published index and model, and the
  function itself: no index or no model gives the empty list (lines 841-843), an exception inside
  the block gives the empty list (lines 903-905).
\<close>

definition top_folders_of :: "vec list \<Rightarrow> vec list \<Rightarrow> (string \<times> nat list) list \<Rightarrow> int
    \<Rightarrow> py_error + (string \<times> real) list" where
  "top_folders_of index q_vec findices top_k_folders =
     (case score_folders index q_vec findices [] of Inl e \<Rightarrow> Inl e
      | Inr folder_scores \<Rightarrow> Inr (py_prefix top_k_folders (sorted_desc folder_scores)))"

definition retrieve_try :: "app_state \<Rightarrow> world \<Rightarrow> vec list \<Rightarrow> string \<Rightarrow> pystr \<Rightarrow> int \<Rightarrow> int
    \<Rightarrow> py_error + result list" where
  "retrieve_try st w index model query top_k_folders top_k_chunks =
     (case encode w model [query] of None \<Rightarrow> Inl EncodeError
      | Some q_raw \<Rightarrow>
          let q_vec = map normalize_L2 q_raw in
          (case top_folders_of index q_vec (folder_indices st) top_k_folders of Inl e \<Rightarrow> Inl e
           | Inr top_folders \<Rightarrow>
               (case search_folders st w index q_vec top_k_chunks (map fst top_folders) ([], {}) of
                  Inl e \<Rightarrow> Inl e
                | Inr (results, seen_chunks) \<Rightarrow> Inr results)))"

definition retrieve_hierarchical :: "app_state \<Rightarrow> world \<Rightarrow> pystr \<Rightarrow> int \<Rightarrow> int \<Rightarrow> result list" where
  "retrieve_hierarchical st w query top_k_folders top_k_chunks =
     (case (global_index st, global_embed_model st) of
        (Some index, Some model) \<Rightarrow>
          (case retrieve_try st w index model query top_k_folders top_k_chunks of
             Inl e \<Rightarrow> []
           | Inr results \<Rightarrow> results)
      | _ \<Rightarrow> [])"

section \<open>Well-formedness of a snapshot\<close>

text \<open>
  The invariants of section 3 of the specification: metadata and vector index are as long as
  the chunk list, and every position listed under a folder is a position of the chunk list
  whose metadata names that folder. \<open>acc_wf\<close> is the same statement about the lists under
  construction inside \<^verbatim>\<open>rebuild_index\<close>.
\<close>

definition snapshot_wf :: "app_state \<Rightarrow> bool" where
  "snapshot_wf st \<longleftrightarrow>
     length (chunk_metadata st) = length (global_chunks st)
     \<and> (case global_index st of None \<Rightarrow> global_chunks st = []
         | Some index \<Rightarrow> length index = length (global_chunks st))
     \<and> (\<forall>(folder_name, chunk_indices) \<in> set (folder_indices st).
           \<forall>idx \<in> set chunk_indices.
             idx < length (global_chunks st) \<and> meta_folder (chunk_metadata st ! idx) = folder_name)"

definition acc_wf :: "build_acc \<Rightarrow> bool" where
  "acc_wf acc \<longleftrightarrow>
     length (all_metadata acc) = length (all_chunks acc)
     \<and> (\<forall>(folder_name, chunk_indices) \<in> set (folder_indices_temp acc).
           \<forall>idx \<in> set chunk_indices.
             idx < length (all_chunks acc) \<and> meta_folder (all_metadata acc ! idx) = folder_name)"

text \<open>
  A chunk comes from the document its metadata names: the scan holds a folder of that key and
  root with a document of that file name, and chunking the document's text yields the chunk.
\<close>

definition chunk_from :: "structures \<Rightarrow> pystr \<Rightarrow> chunk_meta \<Rightarrow> bool" where
  "chunk_from all_structures chunk metadata \<longleftrightarrow>
     (\<exists>docs content.
        (meta_folder metadata, docs, meta_base_folder metadata) \<in> set all_structures
        \<and> (meta_filename metadata, content) \<in> set docs
        \<and> chunk \<in> set (chunk_text content))"

definition acc_sourced :: "structures \<Rightarrow> build_acc \<Rightarrow> bool" where
  "acc_sourced all_structures acc \<longleftrightarrow>
     list_all2 (chunk_from all_structures) (all_chunks acc) (all_metadata acc)"

section \<open>Describing what the retriever returns\<close>

text \<open>
  The result dictionary built at lines 892-898 for the candidate at local position
  \<open>local_idx\<close> of a folder.
\<close>

definition result_at :: "app_state \<Rightarrow> nat list \<Rightarrow> real list \<Rightarrow> nat \<Rightarrow> result" where
  "result_at st chunk_indices similarities local_idx =
     (let metadata = chunk_metadata st ! (chunk_indices ! local_idx)
      in \<lparr>res_chunk = global_chunks st ! (chunk_indices ! local_idx),
          res_folder = meta_folder metadata,
          res_filename = meta_filename metadata,
          res_score = similarities ! local_idx\<rparr>)"

text \<open>
  The selection of section 4.5, step 4, in the specification's words: the top
  \<open>top_k_chunks\<close> positions by score, descending, equal scores in original chunk order.
\<close>

definition spec_top_indices :: "real list \<Rightarrow> int \<Rightarrow> nat list" where
  "spec_top_indices similarities top_k_chunks =
     py_prefix top_k_chunks (sort_key (\<lambda>i. - (similarities ! i)) [0 ..< length similarities])"

text \<open>
  A part of the result list comes from a folder when it is made of the results at a
  subsequence of the top positions that line 881 computes for that folder.
\<close>

definition from_folder :: "app_state \<Rightarrow> world \<Rightarrow> vec list \<Rightarrow> vec list \<Rightarrow> int \<Rightarrow> string \<Rightarrow> result list \<Rightarrow> bool" where
  "from_folder st w index q_vec top_k_chunks folder_name part \<longleftrightarrow>
     (\<exists>chunk_indices similarities kept.
        map_of (folder_indices st) folder_name = Some chunk_indices
        \<and> np_dot (map ((!) index) chunk_indices) q_vec = Inr similarities
        \<and> subseq kept (top_indices w similarities top_k_chunks)
        \<and> part = map (result_at st chunk_indices similarities) kept)"


text \<open>
  A list of scored folders is ranked when each score is at least the scores after it.
\<close>

definition ranked :: "(string \<times> real) list \<Rightarrow> bool" where
  "ranked scored \<longleftrightarrow> sorted_wrt (\<lambda>x y. snd y \<le> snd x) scored"

section \<open>Rebuild scheduler: \<^verbatim>\<open>debounced_rebuild\<close> (app_auth.py, lines 812-820)\<close>















section \<open>Sample data\<close>

text \<open>
  Three sample documents of 700 characters. In the first, position 299 (the last position of
  the first slice) holds a blank; in the second it holds a no-break space, U+00A0; the third
  has no whitespace at all.
\<close>

definition blank_at_299 :: pystr where
  "blank_at_299 = replicate 299 (of_char (CHR ''a'')) @ [0x20] @ replicate 400 (of_char (CHR ''b''))"

definition nbsp_at_299 :: pystr where
  "nbsp_at_299 = replicate 299 (of_char (CHR ''a'')) @ [0xA0] @ replicate 400 (of_char (CHR ''b''))"

definition no_blank_700 :: pystr where
  "no_blank_700 = replicate 285 (of_char (CHR ''a'')) @ replicate 415 (of_char (CHR ''b''))"

text \<open>
  Two roots: one with a file beside two subdirectories, one with files only.
\<close>

definition mixed_items :: "(string \<times> fs_node) list" where
  "mixed_items = [(''readme.txt'', File (Some (ustr ''top level text''))),
                     (''hr'', Dir [(''leave.txt'', File (Some (ustr ''leave policy''))),
                                   (''notes.md'', File (Some (ustr ''skipped''))),
                                   (''broken.pdf'', File None)]),
                     (''empty'', Dir [])]"

definition flat_items :: "(string \<times> fs_node) list" where
  "flat_items = [(''readme.TXT'', File (Some (ustr ''top level text''))),
                    (''image.png'', File (Some (ustr ''pixels'')))]"

text \<open>
  A small corpus, worlds built on it, and hand-written index states for the retriever. The
  \<^verbatim>\<open>np.argsort\<close> of the sample worlds keeps equal values in their original order; in every
  sample state but \<open>st_tie\<close> the scores of a folder are all different, so that any other
  \<^verbatim>\<open>np.argsort\<close> returns the same positions there.
\<close>

definition sample_docs :: fs_node where
  "sample_docs = Dir [(''hr'', Dir [(''leave.txt'', File (Some (ustr ''leave policy''))),
                                    (''pay.txt'', File (Some (ustr ''pay policy'')))]),
                      (''tech'', Dir [(''api.txt'', File (Some (ustr ''api description'')))])]"

definition in_order_argsort :: "real list \<Rightarrow> nat list" where
  "in_order_argsort a = sort_key (\<lambda>i. a ! i) [0 ..< length a]"

definition good_world :: world where
  "good_world = \<lparr>default_docs = Some sample_docs, uploaded_docs = None,
     model_loads = (\<lambda>name. True),
     encode = (\<lambda>model batch. Some (map (\<lambda>s. [1, 0]) batch)),
     faiss_fails = False, clock = (\<lambda>n. n), argsort = in_order_argsort\<rparr>"

definition mute_world :: world where
  "mute_world = good_world\<lparr>encode := (\<lambda>model batch. None)\<rparr>"

definition no_model_world :: world where
  "no_model_world = good_world\<lparr>model_loads := (\<lambda>name. False)\<rparr>"

definition no_faiss_world :: world where
  "no_faiss_world = good_world\<lparr>faiss_fails := True\<rparr>"

definition empty_world :: world where
  "empty_world = good_world\<lparr>default_docs := Some (Dir [(''hr'', Dir [(''notes.md'', File (Some (ustr ''skipped'')))])]),
                             uploaded_docs := None\<rparr>"

definition mk_meta :: "string \<Rightarrow> string \<Rightarrow> chunk_meta" where
  "mk_meta f n = \<lparr>meta_folder = f, meta_filename = n, meta_base_folder = ''documents'', meta_timestamp = 0\<rparr>"

definition st_ab :: app_state where
  "st_ab = \<lparr>global_chunks = [ustr ''a1'', ustr ''a2'', ustr ''b1'', ustr ''b2''],
            global_index = Some [[1, 0], [0, 1], [4/5, 3/5], [3/5, 4/5]],
            global_embed_model = Some ''m'',
            chunk_metadata = [mk_meta ''A'' ''a.txt'', mk_meta ''A'' ''a.txt'',
                              mk_meta ''B'' ''b.txt'', mk_meta ''B'' ''b.txt''],
            folder_indices = [(''A'', [0, 1]), (''B'', [2, 3])],
            last_index_update = None, index_stats = empty_stats\<rparr>"

definition st_dangling :: app_state where
  "st_dangling = st_ab\<lparr>folder_indices := [(''A'', [0, 7])]\<rparr>"

definition st_tie :: app_state where
  "st_tie = \<lparr>global_chunks = [ustr ''first'', ustr ''second''],
             global_index = Some [[3/5, 4/5], [3/5, - 4/5]],
             global_embed_model = Some ''m'',
             chunk_metadata = [mk_meta ''A'' ''a.txt'', mk_meta ''A'' ''b.txt''],
             folder_indices = [(''A'', [0, 1])],
             last_index_update = None, index_stats = empty_stats\<rparr>"

text \<open>
  Two states whose second folder, \<open>B\<close>, scores higher than the first, \<open>A\<close>: the rank order of the
  folders is not the order of the dictionary. In \<open>st_low_first\<close> the best chunk of \<open>A\<close> (4/5) scores
  higher than the second chunk of \<open>B\<close> (0). In \<open>st_dup\<close> the text ``x'' lies in both folders and
  \<open>A\<close> has three chunks.
\<close>

definition st_low_first :: app_state where
  "st_low_first = \<lparr>global_chunks = [ustr ''a1'', ustr ''a2'', ustr ''b1'', ustr ''b2''],
            global_index = Some [[4/5, 3/5], [3/5, 4/5], [1, 0], [0, 1]],
            global_embed_model = Some ''m'',
            chunk_metadata = [mk_meta ''A'' ''a.txt'', mk_meta ''A'' ''a.txt'',
                              mk_meta ''B'' ''b.txt'', mk_meta ''B'' ''b.txt''],
            folder_indices = [(''A'', [0, 1]), (''B'', [2, 3])],
            last_index_update = None, index_stats = empty_stats\<rparr>"

definition st_dup :: app_state where
  "st_dup = \<lparr>global_chunks = [ustr ''x'', ustr ''z'', ustr ''w'', ustr ''y'', ustr ''x''],
             global_index = Some [[4/5, 3/5], [3/5, 4/5], [0, 1], [1, 0], [4/5, 3/5]],
             global_embed_model = Some ''m'',
             chunk_metadata = [mk_meta ''A'' ''a.txt'', mk_meta ''A'' ''a.txt'', mk_meta ''A'' ''a.txt'',
                               mk_meta ''B'' ''b.txt'', mk_meta ''B'' ''b.txt''],
             folder_indices = [(''A'', [0, 1, 2]), (''B'', [3, 4])],
             last_index_update = None, index_stats = empty_stats\<rparr>"

section \<open>Properties of the chunker\<close>

lemma length_slice: "length (slice t i (i + n)) = min n (length t - i)"
  by (simp add: slice_def)

lemma chunk_loop_past_end: "length t \<le> i \<Longrightarrow> chunk_loop t i = []"
  by (subst chunk_loop.simps) simp

text \<open>
  When stripping changes no slice, the loop returns the raw slices: fragment \<open>j\<close> is the text at
  \<open>[i + 270 j, i + 270 j + 300)\<close>, and more than 50 characters of text follow its start.
\<close>

lemma chunk_loop_raw:
  assumes "\<And>k. i + k * 270 < length t \<Longrightarrow>
             strip (slice t (i + k * 270) (i + k * 270 + 300)) = slice t (i + k * 270) (i + k * 270 + 300)"
  shows "j < length (chunk_loop t i) \<Longrightarrow>
           chunk_loop t i ! j = slice t (i + j * 270) (i + j * 270 + 300) \<and> i + j * 270 + 50 < length t"
  using assms
proof (induction t i arbitrary: j rule: chunk_loop.induct)
  case (1 t i)
  show ?case
  proof (cases "i < length t")
    case False
    then have "chunk_loop t i = []" by (simp add: chunk_loop_past_end)
    with "1.prems"(1) show ?thesis by simp
  next
    case True
    have s0: "strip (slice t i (i + 300)) = slice t i (i + 300)"
      using "1.prems"(2)[of 0] True by simp
    have step: "\<And>k. i + 270 + k * 270 < length t \<Longrightarrow>
             strip (slice t (i + 270 + k * 270) (i + 270 + k * 270 + 300))
               = slice t (i + 270 + k * 270) (i + 270 + k * 270 + 300)"
      using "1.prems"(2)[of "Suc k" for k] by (simp add: add.assoc add.commute)
    have unf: "chunk_loop t i
                 = (if length (slice t i (i + 300)) > 50 then [slice t i (i + 300)] else [])
                   @ chunk_loop t (i + 270)"
      using True s0 by (subst chunk_loop.simps) (simp add: CHUNK_SIZE_def CHUNK_OVERLAP_def Let_def)
    show ?thesis
    proof (cases "length (slice t i (i + 300)) > 50")
      case long: True
      then have big: "i + 50 < length t" by (simp add: length_slice)
      show ?thesis
      proof (cases j)
        case 0
        with unf long big show ?thesis by simp
      next
        case (Suc j')
        with "1.prems"(1) unf long have j': "j' < length (chunk_loop t (i + 270))" by simp
        have eq: "i + (CHUNK_SIZE - CHUNK_OVERLAP) = i + 270"
          by (simp add: CHUNK_SIZE_def CHUNK_OVERLAP_def)
        from "1.IH"[OF True refl, unfolded eq, OF j' step]
        have "chunk_loop t (i + 270) ! j'
                = slice t (i + 270 + j' * 270) (i + 270 + j' * 270 + 300) \<and>
              i + 270 + j' * 270 + 50 < length t" by simp
        with unf long Suc show ?thesis by (simp add: add.assoc add.commute add.left_commute)
      qed
    next
      case short: False
      then have "length t \<le> i + 270" using True by (simp add: length_slice)
      then have "chunk_loop t (i + 270) = []" by (simp add: chunk_loop_past_end)
      with unf short "1.prems"(1) show ?thesis by simp
    qed
  qed
qed

lemma chunk_loop_first:
  assumes "300 < length t" and "strip (slice t 0 300) = slice t 0 300"
  shows "chunk_loop t 0 \<noteq> []"
proof -
  have "length (slice t 0 300) = 300" using assms(1) by (simp add: slice_def)
  then show ?thesis
    using assms by (subst chunk_loop.simps) (auto simp: CHUNK_SIZE_def CHUNK_OVERLAP_def Let_def)
qed

text \<open>
  C5, as amended. For a text whose trimmed length exceeds \<^verbatim>\<open>CHUNK_SIZE\<close> and none of whose slices
  begins or ends with whitespace, every fragment returned by \<^verbatim>\<open>chunk_text\<close> that has a successor is
  the raw slice of the trimmed text at a multiple of the stride, and it overlaps its successor by exactly
  \<^verbatim>\<open>CHUNK_OVERLAP\<close> characters. (Without the condition on whitespace the claim fails: each
  slice is stripped after it is cut.)
\<close>

theorem chunk_text_overlap_clean:
  assumes "CHUNK_SIZE < length (strip text)"
    and "clean_slices (strip text)"
    and "Suc j < length (chunk_text text)"
  shows "chunk_text text ! j = slice (strip text) (j * stride) (j * stride + CHUNK_SIZE)
       \<and> chunk_text text ! Suc j = slice (strip text) (Suc j * stride) (Suc j * stride + CHUNK_SIZE)
       \<and> overlaps_by CHUNK_OVERLAP (chunk_text text ! j) (chunk_text text ! Suc j)"
proof -
  define t where "t = strip text"
  have len: "300 < length t" using assms(1) by (simp add: t_def CHUNK_SIZE_def)
  have clean: "strip (slice t (0 + k * 270) (0 + k * 270 + 300)) = slice t (0 + k * 270) (0 + k * 270 + 300)"
    if "0 + k * 270 < length t" for k
  proof -
    from that have "k < Suc (length t div 270)" by (simp add: less_Suc_eq_le less_mult_imp_div_less less_imp_le)
    with assms(2) show ?thesis
      by (auto simp add: clean_slices_def t_def [symmetric] stride_def CHUNK_SIZE_def CHUNK_OVERLAP_def
               simp del: upt_Suc)
  qed
  have "t \<noteq> []" using len by auto
  then have "text \<noteq> []" by (auto simp: t_def strip_def)
  have "strip (slice t 0 300) = slice t 0 300" using clean[of 0] \<open>t \<noteq> []\<close> by simp
  then have ne: "chunk_loop t 0 \<noteq> []" using len by (rule chunk_loop_first[rotated])
  note \<open>text \<noteq> []\<close> \<open>t \<noteq> []\<close>
  then have ct: "chunk_text text = chunk_loop t 0"
    using ne by (simp add: chunk_text_def t_def [symmetric] Let_def)
  have j1: "Suc j < length (chunk_loop t 0)" and j0: "j < length (chunk_loop t 0)"
    using assms(3) ct by simp_all
  from chunk_loop_raw[of 0 t j, OF clean j0]
  have a: "chunk_loop t 0 ! j = slice t (j * 270) (j * 270 + 300)" by simp
  from chunk_loop_raw[of 0 t "Suc j", OF clean j1]
  have b: "chunk_loop t 0 ! Suc j = slice t (270 + j * 270) (270 + j * 270 + 300)"
    and far: "270 + j * 270 + 50 < length t" by simp_all
  have la: "length (slice t (j * 270) (j * 270 + 300)) = 300"
    using far by (simp add: length_slice)
  have lb: "30 \<le> length (slice t (270 + j * 270) (270 + j * 270 + 300))"
    using far by (simp add: slice_def)
  have ov: "drop 270 (slice t (j * 270) (j * 270 + 300))
              = take 30 (slice t (270 + j * 270) (270 + j * 270 + 300))"
    by (simp add: slice_def drop_take add.commute)
  have "overlaps_by 30 (chunk_loop t 0 ! j) (chunk_loop t 0 ! Suc j)"
    unfolding overlaps_by_def a b using la lb ov by simp
  with a b ct show ?thesis
    by (simp add: t_def stride_def CHUNK_SIZE_def CHUNK_OVERLAP_def add.commute)
qed

theorem chunk_text_overlap_clean_witness:
  "CHUNK_SIZE < length (strip no_blank_700) \<and> clean_slices (strip no_blank_700)
   \<and> Suc 0 < length (chunk_text no_blank_700)
   \<and> chunk_text no_blank_700 ! 0 = replicate 285 (of_char (CHR ''a'')) @ replicate 15 (of_char (CHR ''b''))
   \<and> overlaps_by CHUNK_OVERLAP (chunk_text no_blank_700 ! 0) (chunk_text no_blank_700 ! Suc 0)"
proof -
  have h1: "CHUNK_SIZE < length (strip no_blank_700)" by code_simp
  have h2: "clean_slices (strip no_blank_700)" by code_simp
  have h3: "Suc 0 < length (chunk_text no_blank_700)" by code_simp
  have v: "slice (strip no_blank_700) (0 * stride) (0 * stride + CHUNK_SIZE)
             = replicate 285 (of_char (CHR ''a'')) @ replicate 15 (of_char (CHR ''b''))" by code_simp
  note th = chunk_text_overlap_clean[OF h1 h2 h3]
  from th have "chunk_text no_blank_700 ! 0
                  = slice (strip no_blank_700) (0 * stride) (0 * stride + CHUNK_SIZE)"
    by (rule conjunct1)
  then have c0: "chunk_text no_blank_700 ! 0
                   = replicate 285 (of_char (CHR ''a'')) @ replicate 15 (of_char (CHR ''b''))"
    using v by (rule trans)
  from th have ov: "overlaps_by CHUNK_OVERLAP (chunk_text no_blank_700 ! 0) (chunk_text no_blank_700 ! Suc 0)"
    by (rule conjunct2[THEN conjunct2])
  from h1 h2 h3 c0 ov show ?thesis by blast
qed

text \<open>
  The claim C5 as stated fails on \<open>blank_at_299\<close> and on \<open>nbsp_at_299\<close>: the trimmed text has
  700 characters, three fragments are returned, and the first two (neither is the final one) do
  not overlap by \<^verbatim>\<open>CHUNK_OVERLAP\<close> characters, because the whitespace that ends the first
  slice is stripped: the first fragment has 299 characters.
\<close>

theorem chunk_text_overlap_counterexample:
  "CHUNK_SIZE < length (strip blank_at_299)
   \<and> map length (chunk_text blank_at_299) = [299, 300, 160]
   \<and> \<not> overlaps_by CHUNK_OVERLAP (chunk_text blank_at_299 ! 0) (chunk_text blank_at_299 ! 1)
   \<and> CHUNK_SIZE < length (strip nbsp_at_299)
   \<and> map length (chunk_text nbsp_at_299) = [299, 300, 160]
   \<and> \<not> overlaps_by CHUNK_OVERLAP (chunk_text nbsp_at_299 ! 0) (chunk_text nbsp_at_299 ! 1)"
  by code_simp

section \<open>Properties of the folder scanner\<close>

lemma set_update_subset: "set (AList.update k v al) \<subseteq> insert (k, v) (set al)"
  by (induction al) auto

lemma fold_scan_subfolder_skip:
  "fold scan_subfolder items acc = fold scan_subfolder (subdirs_only items) acc"
  by (induction items arbitrary: acc) (auto simp: subdirs_only_def)

lemma fold_scan_subfolder_origin:
  assumes "(folder_name, docs) \<in> set (fold scan_subfolder items acc)"
  shows "(folder_name, docs) \<in> set acc \<or>
         (\<exists>node. (folder_name, node) \<in> set items \<and> isdir node
                 \<and> docs = load_documents_from_folder (Some node))"
  using assms
proof (induction items arbitrary: acc)
  case Nil
  then show ?case by simp
next
  case (Cons it items)
  obtain item node where it: "it = (item, node)" by (cases it)
  from Cons.prems have "(folder_name, docs) \<in> set (fold scan_subfolder items (scan_subfolder it acc))"
    by simp
  from Cons.IH[OF this] show ?case
  proof
    assume a: "(folder_name, docs) \<in> set (scan_subfolder it acc)"
    show ?thesis
    proof (cases "isdir node \<and> load_documents_from_folder (Some node) \<noteq> []")
      case True
      with a it have "(folder_name, docs) \<in> insert (item, load_documents_from_folder (Some node)) (set acc)"
        using set_update_subset[of item "load_documents_from_folder (Some node)" acc] by auto
      with True it show ?thesis by auto
    next
      case False
      with a it have "(folder_name, docs) \<in> set acc" by (auto simp: Let_def split: if_splits)
      then show ?thesis by simp
    qed
  next
    assume "\<exists>node. (folder_name, node) \<in> set items \<and> isdir node
                 \<and> docs = load_documents_from_folder (Some node)"
    then show ?thesis by auto
  qed
qed

text \<open>
  C9. When the root has a subdirectory, the scan is the scan of the root with everything but
  its subdirectories removed, and every folder of the result is one of those subdirectories with
  the documents loaded from it: a file lying in the root reaches no folder, ``general'' included.
  When the root has no subdirectory, the result is the single folder ``general'' holding the
  root's own documents, or nothing when there are none.
\<close>

theorem scan_ignores_root_files:
  "(list_ex (\<lambda>(item, node). isdir node) items \<longrightarrow>
      scan_folder_structure (Some (Dir items)) = scan_folder_structure (Some (Dir (subdirs_only items)))
      \<and> (\<forall>(folder_name, docs) \<in> set (scan_folder_structure (Some (Dir items))).
            \<exists>node. (folder_name, node) \<in> set items \<and> isdir node
                   \<and> docs = load_documents_from_folder (Some node)))
   \<and> (\<not> list_ex (\<lambda>(item, node). isdir node) items \<longrightarrow>
        scan_folder_structure (Some (Dir items)) =
          (if fold load_file items [] \<noteq> [] then [(''general'', fold load_file items [])] else []))"
proof (intro conjI impI)
  assume sub: "list_ex (\<lambda>(item, node). isdir node) items"
  then have "list_ex (\<lambda>(item, node). isdir node) (subdirs_only items)"
    by (auto simp: subdirs_only_def list_ex_iff)
  with sub show "scan_folder_structure (Some (Dir items))
                   = scan_folder_structure (Some (Dir (subdirs_only items)))"
    using fold_scan_subfolder_skip[of items "[]"] by simp
  from sub have "scan_folder_structure (Some (Dir items)) = fold scan_subfolder items []" by simp
  then show "\<forall>(folder_name, docs) \<in> set (scan_folder_structure (Some (Dir items))).
            \<exists>node. (folder_name, node) \<in> set items \<and> isdir node
                   \<and> docs = load_documents_from_folder (Some node)"
    using fold_scan_subfolder_origin[of _ _ items "[]"] by auto
next
  assume "\<not> list_ex (\<lambda>(item, node). isdir node) items"
  then show "scan_folder_structure (Some (Dir items)) =
          (if fold load_file items [] \<noteq> [] then [(''general'', fold load_file items [])] else [])"
    by (simp add: Let_def)
qed


theorem scan_ignores_root_files_witness:
  "list_ex (\<lambda>(item, node). isdir node) mixed_items
   \<and> scan_folder_structure (Some (Dir mixed_items))
       = scan_folder_structure (Some (Dir (subdirs_only mixed_items)))
   \<and> scan_folder_structure (Some (Dir mixed_items)) = [(''hr'', [(''leave.txt'', ustr ''leave policy'')])]
   \<and> \<not> list_ex (\<lambda>(item, node). isdir node) flat_items
   \<and> scan_folder_structure (Some (Dir flat_items))
       = [(''general'', [(''readme.TXT'', ustr ''top level text'')])]"
proof -
  have h1: "list_ex (\<lambda>(item, node). isdir node) mixed_items" by code_simp
  have h2: "\<not> list_ex (\<lambda>(item, node). isdir node) flat_items" by code_simp
  have v1: "scan_folder_structure (Some (Dir (subdirs_only mixed_items)))
              = [(''hr'', [(''leave.txt'', ustr ''leave policy'')])]" by code_simp
  have v2: "(if fold load_file flat_items [] \<noteq> [] then [(''general'', fold load_file flat_items [])] else [])
              = [(''general'', [(''readme.TXT'', ustr ''top level text'')])]" by code_simp
  from scan_ignores_root_files[of mixed_items] h1
  have a: "scan_folder_structure (Some (Dir mixed_items))
             = scan_folder_structure (Some (Dir (subdirs_only mixed_items)))" by blast
  from scan_ignores_root_files[of flat_items] h2
  have b: "scan_folder_structure (Some (Dir flat_items)) =
          (if fold load_file flat_items [] \<noteq> [] then [(''general'', fold load_file flat_items [])] else [])"
    by blast
  from h1 h2 a b v1 v2 show ?thesis by simp
qed

section \<open>Properties of the index builder\<close>

text \<open>
  C4. When \<^verbatim>\<open>rebuild_index\<close> raises, what it raises is an \<^verbatim>\<open>IndexBuildError\<close> and the
  whole published state (chunk list, vector index, embedding model, metadata, folder positions,
  statistics, time of the last update) is the state before the call; so it is after
  \<^verbatim>\<open>safe_rebuild\<close>, which swallows the error.
\<close>

theorem rebuild_index_failure_keeps_state:
  "fst (rebuild_index w st) = Some e \<Longrightarrow>
     snd (rebuild_index w st) = st \<and> safe_rebuild w st = st \<and> (\<exists>cause. e = IndexBuildError cause)"
  by (auto simp: rebuild_index_def safe_rebuild_def Let_def split: if_splits option.splits)

theorem rebuild_index_failure_keeps_state_witness:
  "fst (rebuild_index no_model_world st_ab) = Some (IndexBuildError ModelLoadFailed)
   \<and> snd (rebuild_index no_model_world st_ab) = st_ab
   \<and> fst (rebuild_index mute_world st_ab) = Some (IndexBuildError EmbeddingFailed)
   \<and> snd (rebuild_index mute_world st_ab) = st_ab \<and> safe_rebuild mute_world st_ab = st_ab
   \<and> fst (rebuild_index no_faiss_world st_ab) = Some (IndexBuildError FaissFailed)
   \<and> snd (rebuild_index no_faiss_world st_ab) = st_ab"
proof -
  have a0: "scan_all no_model_world \<noteq> []" by code_simp
  have b0: "\<not> model_loads no_model_world (detect_language (sample_texts (scan_all no_model_world)))"
    by code_simp
  have f0: "fst (rebuild_index no_model_world st_ab) = Some (IndexBuildError ModelLoadFailed)"
    using a0 b0 by (simp add: rebuild_index_def Let_def)
  have a: "scan_all mute_world \<noteq> []" by code_simp
  have b: "model_loads mute_world (detect_language (sample_texts (scan_all mute_world)))" by code_simp
  have c: "all_chunks (process_folders mute_world (scan_all mute_world)) \<noteq> []" by code_simp
  have d: "create_embeddings mute_world (detect_language (sample_texts (scan_all mute_world)))
             (all_chunks (process_folders mute_world (scan_all mute_world))) = None" by code_simp
  have f: "fst (rebuild_index mute_world st_ab) = Some (IndexBuildError EmbeddingFailed)"
    using a b c d by (simp add: rebuild_index_def Let_def)
  have a2: "scan_all no_faiss_world \<noteq> []" by code_simp
  have b2: "model_loads no_faiss_world (detect_language (sample_texts (scan_all no_faiss_world)))"
    by code_simp
  have c2: "all_chunks (process_folders no_faiss_world (scan_all no_faiss_world)) \<noteq> []" by code_simp
  have d2: "create_embeddings no_faiss_world (detect_language (sample_texts (scan_all no_faiss_world)))
             (all_chunks (process_folders no_faiss_world (scan_all no_faiss_world)))
              = Some [[1, 0], [1, 0], [1, 0]]" by code_simp
  have e2: "faiss_fails no_faiss_world" by (simp add: no_faiss_world_def)
  have f2: "fst (rebuild_index no_faiss_world st_ab) = Some (IndexBuildError FaissFailed)"
    using a2 b2 c2 d2 e2 by (simp add: rebuild_index_def Let_def build_faiss_def)
  from rebuild_index_failure_keeps_state[OF f0] rebuild_index_failure_keeps_state[OF f]
    rebuild_index_failure_keeps_state[OF f2] f0 f f2
  show ?thesis by blast
qed

text \<open>
  C6. When the scan of both roots finds no document, \<^verbatim>\<open>rebuild_index\<close> raises nothing and
  publishes the empty snapshot (no chunks, no vector index, no model, no metadata, no folders,
  zeroed statistics), and a retrieval on that state returns the empty list, whatever the query.
\<close>

theorem empty_corpus_builds_empty_snapshot:
  assumes "scan_folder_structure (default_docs w) = []"
    and "scan_folder_structure (uploaded_docs w) = []"
  shows "fst (rebuild_index w st) = None
       \<and> snd (rebuild_index w st)
           = st\<lparr>global_chunks := [], global_index := None, global_embed_model := None,
                chunk_metadata := [], folder_indices := [], index_stats := empty_stats\<rparr>
       \<and> retrieve_hierarchical (snd (rebuild_index w st)) w' query top_k_folders top_k_chunks = []"
  using assms by (simp add: rebuild_index_def scan_all_def retrieve_hierarchical_def)


theorem empty_corpus_builds_empty_snapshot_witness:
  "scan_folder_structure (default_docs empty_world) = []
   \<and> scan_folder_structure (uploaded_docs empty_world) = []
   \<and> fst (rebuild_index empty_world st_ab) = None
   \<and> global_chunks (snd (rebuild_index empty_world st_ab)) = []
   \<and> global_index (snd (rebuild_index empty_world st_ab)) = None
   \<and> retrieve_hierarchical (snd (rebuild_index empty_world st_ab)) good_world (ustr ''q'')
         TOP_K_FOLDERS TOP_K_CHUNKS = []"
proof -
  have e1: "scan_folder_structure (default_docs empty_world) = []" by code_simp
  have e2: "scan_folder_structure (uploaded_docs empty_world) = []" by code_simp
  note th = empty_corpus_builds_empty_snapshot[OF e1 e2, of st_ab good_world "ustr ''q''" TOP_K_FOLDERS TOP_K_CHUNKS]
  from th have s: "snd (rebuild_index empty_world st_ab)
           = st_ab\<lparr>global_chunks := [], global_index := None, global_embed_model := None,
                chunk_metadata := [], folder_indices := [], index_stats := empty_stats\<rparr>" by blast
  have g: "global_chunks (snd (rebuild_index empty_world st_ab)) = []"
    and h: "global_index (snd (rebuild_index empty_world st_ab)) = None" by (simp_all add: s)
  from th e1 e2 g h show ?thesis by blast
qed

lemma append_at_entries:
  assumes "(k', vs') \<in> set (append_at k v d)"
  shows "(k', vs') \<in> set d \<or> (k' = k \<and> (\<exists>vs. vs' = vs @ [v] \<and> (vs = [] \<or> (k, vs) \<in> set d)))"
proof -
  let ?old = "case map_of d k of None \<Rightarrow> [] | Some vs \<Rightarrow> vs"
  from assms have "(k', vs') \<in> insert (k, ?old @ [v]) (set d)"
    using set_update_subset[of k "?old @ [v]" d] by (auto simp: append_at_def)
  moreover have "?old = [] \<or> (k, ?old) \<in> set d"
    by (auto split: option.splits dest: map_of_SomeD)
  ultimately show ?thesis by auto
qed

lemma add_chunk_wf:
  assumes "acc_wf acc"
  shows "acc_wf (add_chunk w folder_name base fname chunk acc)"
  unfolding acc_wf_def
proof (intro conjI ballI, goal_cases)
  case 1
  from assms show ?case by (simp add: acc_wf_def add_chunk_def Let_def)
next
  case (2 entry)
  obtain k' vs' where entry: "entry = (k', vs')" by (cases entry)
  have len: "length (all_metadata acc) = length (all_chunks acc)"
    using assms by (simp add: acc_wf_def)
  from 2 entry have "(k', vs') \<in> set (append_at folder_name (length (all_chunks acc)) (folder_indices_temp acc))"
    by (simp add: add_chunk_def Let_def)
  from append_at_entries[OF this]
  have "\<forall>idx \<in> set vs'. idx < Suc (length (all_chunks acc)) \<and>
          meta_folder ((all_metadata acc @
               [\<lparr>meta_folder = folder_name, meta_filename = fname, meta_base_folder = base,
                 meta_timestamp = clock w (length (all_chunks acc))\<rparr>]) ! idx) = k'"
  proof
    assume old: "(k', vs') \<in> set (folder_indices_temp acc)"
    with assms have "\<forall>idx \<in> set vs'. idx < length (all_chunks acc) \<and> meta_folder (all_metadata acc ! idx) = k'"
      by (auto simp: acc_wf_def)
    with len show ?thesis by (auto simp: nth_append)
  next
    assume "k' = folder_name \<and> (\<exists>vs. vs' = vs @ [length (all_chunks acc)] \<and>
               (vs = [] \<or> (folder_name, vs) \<in> set (folder_indices_temp acc)))"
    then obtain vs where k': "k' = folder_name" and vs': "vs' = vs @ [length (all_chunks acc)]"
      and vs: "vs = [] \<or> (folder_name, vs) \<in> set (folder_indices_temp acc)" by blast
    from vs assms have "\<forall>idx \<in> set vs. idx < length (all_chunks acc) \<and> meta_folder (all_metadata acc ! idx) = folder_name"
      by (auto simp: acc_wf_def)
    with len k' vs' show ?thesis by (auto simp: nth_append)
  qed
  with entry show ?case by (simp add: add_chunk_def Let_def)
qed

lemma fold_add_chunk_wf:
  "acc_wf acc \<Longrightarrow> acc_wf (fold (add_chunk w folder_name base fname) doc_chunks acc)"
  by (induction doc_chunks arbitrary: acc) (simp_all add: add_chunk_wf)

lemma fold_process_doc_wf:
  "acc_wf (fst st3) \<Longrightarrow> acc_wf (fst (fold (process_doc w folder_name base) docs st3))"
proof (induction docs arbitrary: st3)
  case Nil
  then show ?case by simp
next
  case (Cons d docs)
  obtain fname content where d: "d = (fname, content)" by (cases d)
  obtain acc fc ff where st3: "st3 = (acc, fc, ff)" by (cases st3)
  from Cons.prems st3 have "acc_wf (fst (process_doc w folder_name base d st3))"
    by (simp add: d Let_def fold_add_chunk_wf)
  from Cons.IH[OF this] show ?case by simp
qed

lemma process_folder_wf:
  assumes "acc_wf acc"
  shows "acc_wf (process_folder w entry acc)"
proof -
  obtain folder_name docs base where entry: "entry = (folder_name, docs, base)" by (cases entry)
  obtain acc' fc ff where r: "fold (process_doc w folder_name base) docs (acc, [], 0) = (acc', fc, ff)"
    by (cases "fold (process_doc w folder_name base) docs (acc, [], 0)")
  from fold_process_doc_wf[of "(acc, [], 0)" w folder_name base docs] assms r
  have "acc_wf acc'" by simp
  then show ?thesis by (simp add: entry r acc_wf_def)
qed

lemma fold_process_folder_wf:
  "acc_wf acc \<Longrightarrow> acc_wf (fold (process_folder w) all_structures acc)"
  by (induction all_structures arbitrary: acc) (simp_all add: process_folder_wf)

lemma process_folders_wf: "acc_wf (process_folders w all_structures)"
  unfolding process_folders_def
  by (rule fold_process_folder_wf) (simp add: acc_wf_def)

lemma fold_add_chunk_sourced:
  assumes "acc_sourced S acc"
    and "(folder_name, docs, base) \<in> set S" and "(fname, content) \<in> set docs"
    and "set doc_chunks \<subseteq> set (chunk_text content)"
  shows "acc_sourced S (fold (add_chunk w folder_name base fname) doc_chunks acc)"
  using assms(1,4)
proof (induction doc_chunks arbitrary: acc)
  case Nil
  then show ?case by simp
next
  case (Cons c cs)
  from Cons.prems(2) assms(2,3)
  have "chunk_from S c \<lparr>meta_folder = folder_name, meta_filename = fname, meta_base_folder = base,
                          meta_timestamp = clock w (length (all_chunks acc))\<rparr>"
    by (auto simp: chunk_from_def)
  with Cons.prems(1) have "acc_sourced S (add_chunk w folder_name base fname c acc)"
    by (simp add: acc_sourced_def add_chunk_def Let_def list_all2_appendI)
  from Cons.IH[OF this] Cons.prems(2) show ?case by simp
qed

lemma fold_process_doc_sourced:
  assumes "acc_sourced S (fst st3)"
    and "(folder_name, docs, base) \<in> set S" and "set ds \<subseteq> set docs"
  shows "acc_sourced S (fst (fold (process_doc w folder_name base) ds st3))"
  using assms(1,3)
proof (induction ds arbitrary: st3)
  case Nil
  then show ?case by simp
next
  case (Cons d ds)
  obtain fname content where d: "d = (fname, content)" by (cases d)
  obtain acc fc ff where st3: "st3 = (acc, fc, ff)" by (cases st3)
  from Cons.prems(2) d have mem: "(fname, content) \<in> set docs" by simp
  from fold_add_chunk_sourced[OF _ assms(2) mem subset_refl, of acc w] Cons.prems(1) st3
  have "acc_sourced S (fst (process_doc w folder_name base d st3))"
    by (simp add: d Let_def)
  from Cons.IH[OF this] Cons.prems(2) show ?case by simp
qed

lemma process_folder_sourced:
  assumes "acc_sourced S acc" and "entry \<in> set S"
  shows "acc_sourced S (process_folder w entry acc)"
proof -
  obtain folder_name docs base where entry: "entry = (folder_name, docs, base)" by (cases entry)
  obtain acc' fc ff where r: "fold (process_doc w folder_name base) docs (acc, [], 0) = (acc', fc, ff)"
    by (cases "fold (process_doc w folder_name base) docs (acc, [], 0)")
  from fold_process_doc_sourced[of S "(acc, [], 0)" folder_name docs base docs w] assms entry r
  have "acc_sourced S acc'" by simp
  then show ?thesis by (simp add: entry r acc_sourced_def)
qed

lemma fold_process_folder_sourced:
  "acc_sourced S acc \<Longrightarrow> set es \<subseteq> set S \<Longrightarrow> acc_sourced S (fold (process_folder w) es acc)"
  by (induction es arbitrary: acc) (simp_all add: process_folder_sourced)

lemma process_folders_sourced: "acc_sourced S (process_folders w S)"
  unfolding process_folders_def
  by (rule fold_process_folder_sourced) (simp_all add: acc_sourced_def)

lemma concat_batches: "concat (batches xs) = xs"
proof (induction xs rule: batches.induct)
  case (1 xs)
  show ?case
  proof (cases "xs = []")
    case True
    then show ?thesis by (subst batches.simps) simp
  next
    case False
    with "1" have "concat (batches (drop batch_size xs)) = drop batch_size xs" by simp
    with False show ?thesis by (subst batches.simps) simp
  qed
qed

lemma those_map_lengths:
  assumes "those (map f xs) = Some ys"
    and "\<And>x y. x \<in> set xs \<Longrightarrow> f x = Some y \<Longrightarrow> length y = length x"
  shows "map length ys = map length xs"
  using assms
proof (induction xs arbitrary: ys)
  case Nil
  then show ?case by simp
next
  case (Cons x xs)
  from Cons.prems(1) obtain y ys' where y: "f x = Some y" and ys': "those (map f xs) = Some ys'"
    and ys: "ys = y # ys'"
    by (auto split: option.splits)
  from Cons.IH[OF ys'] Cons.prems(2) have "map length ys' = map length xs" by simp
  moreover from Cons.prems(2)[of x y] y have "length y = length x" by simp
  ultimately show ?case using ys by simp
qed

lemma those_map_pointwise:
  assumes "\<And>x. x \<in> set xs \<Longrightarrow> f x = Some (g x)"
  shows "those (map f xs) = Some (map g xs)"
  using assms by (induction xs) simp_all

lemma vstack_Some: "vstack arrays = Some e \<Longrightarrow> e = concat arrays"
  by (auto simp: vstack_def split: list.splits if_splits)

lemma create_embeddings_length:
  assumes "create_embeddings w model cs = Some embeddings"
    and "\<And>b vs. encode w model b = Some vs \<Longrightarrow> length vs = length b"
  shows "length embeddings = length cs"
proof -
  from assms(1) obtain arrays where arrays: "those (map (encode w model) (batches cs)) = Some arrays"
    and v: "vstack arrays = Some embeddings"
    by (auto simp: create_embeddings_def split: option.splits)
  from those_map_lengths[OF arrays] assms(2) have "map length arrays = map length (batches cs)" by simp
  then have "length (concat arrays) = length (concat (batches cs))" by (simp add: length_concat)
  with vstack_Some[OF v] show ?thesis by (simp add: concat_batches)
qed

lemma create_embeddings_pointwise:
  assumes "create_embeddings w model cs = Some embeddings"
    and "\<And>b. b \<in> set (batches cs) \<Longrightarrow> encode w model b = Some (map vec_of b)"
  shows "embeddings = map vec_of cs"
proof -
  from those_map_pointwise[of "batches cs" "encode w model" "map vec_of"] assms(2)
  have "those (map (encode w model) (batches cs)) = Some (map (map vec_of) (batches cs))" by simp
  with assms(1) have "vstack (map (map vec_of) (batches cs)) = Some embeddings"
    by (simp add: create_embeddings_def)
  from vstack_Some[OF this] have "embeddings = map vec_of (concat (batches cs))"
    by (simp add: map_concat)
  then show ?thesis by (simp add: concat_batches)
qed

text \<open>
  C8. After a build that raises nothing, with an encoder that returns one vector for each text
  it is given, the published state is well-formed: metadata list and vector index are as long as
  the chunk list, and every position listed under a folder is a valid position whose metadata
  names that folder. Chunk and metadata at one position belong together: the chunk was cut
  from the document the metadata names. When moreover the encoder embeds each text of a batch
  on its own, the vector at a position is the normalised embedding of the chunk at that position.
\<close>

theorem successful_build_well_formed:
  assumes "fst (rebuild_index w st) = None"
    and "\<forall>model b vs. encode w model b = Some vs \<longrightarrow> length vs = length b"
  shows "snapshot_wf (snd (rebuild_index w st))
       \<and> list_all2 (chunk_from (scan_all w))
             (global_chunks (snd (rebuild_index w st))) (chunk_metadata (snd (rebuild_index w st)))
       \<and> (\<forall>vec_of model. global_embed_model (snd (rebuild_index w st)) = Some model
             \<and> (\<forall>b \<in> set (batches (global_chunks (snd (rebuild_index w st)))).
                   encode w model b = Some (map vec_of b))
            \<longrightarrow> global_index (snd (rebuild_index w st))
                  = Some (map (\<lambda>chunk. normalize_L2 (vec_of chunk)) (global_chunks (snd (rebuild_index w st)))))"
proof (cases "scan_all w = []")
  case True
  then show ?thesis by (simp add: rebuild_index_def snapshot_wf_def)
next
  case False
  define name where "name = detect_language (sample_texts (scan_all w))"
  define acc where "acc = process_folders w (scan_all w)"
  from assms(1) False obtain embeddings where
    emb: "create_embeddings w name (all_chunks acc) = Some embeddings"
    and ok: "\<not> faiss_fails w"
    and res: "snd (rebuild_index w st) =
       st\<lparr>global_chunks := all_chunks acc, global_index := Some (map normalize_L2 embeddings),
           global_embed_model := Some name, chunk_metadata := all_metadata acc,
           folder_indices := folder_indices_temp acc,
           last_index_update := Some (clock w (length (all_chunks acc))),
           index_stats := acc_stats acc\<rparr>"
    by (auto simp: rebuild_index_def Let_def name_def acc_def build_faiss_def
             split: if_splits option.splits)
  have wf: "acc_wf acc" unfolding acc_def by (rule process_folders_wf)
  have len: "length embeddings = length (all_chunks acc)"
    using create_embeddings_length[OF emb] assms(2) by blast
  have 1: "snapshot_wf (snd (rebuild_index w st))"
    using wf len by (simp add: res snapshot_wf_def acc_wf_def)
  have 2: "global_index (snd (rebuild_index w st))
             = Some (map (\<lambda>chunk. normalize_L2 (vec_of chunk)) (global_chunks (snd (rebuild_index w st))))"
    if "global_embed_model (snd (rebuild_index w st)) = Some model"
      and "\<forall>b \<in> set (batches (global_chunks (snd (rebuild_index w st)))). encode w model b = Some (map vec_of b)"
    for vec_of model
  proof -
    from that(1) have "model = name" by (simp add: res)
    with that(2) have "\<And>b. b \<in> set (batches (all_chunks acc)) \<Longrightarrow> encode w name b = Some (map vec_of b)"
      by (simp add: res)
    from create_embeddings_pointwise[OF emb this] show ?thesis by (simp add: res)
  qed
  have 3: "list_all2 (chunk_from (scan_all w))
             (global_chunks (snd (rebuild_index w st))) (chunk_metadata (snd (rebuild_index w st)))"
    using process_folders_sourced[of "scan_all w" w] by (simp add: res acc_def acc_sourced_def)
  from 1 2 3 show ?thesis by blast
qed


theorem successful_build_well_formed_witness:
  "fst (rebuild_index good_world initial_state) = None
   \<and> snapshot_wf (snd (rebuild_index good_world initial_state))
   \<and> global_chunks (snd (rebuild_index good_world initial_state))
       = [ustr ''leave policy'', ustr ''pay policy'', ustr ''api description'']
   \<and> global_index (snd (rebuild_index good_world initial_state)) = Some [[1, 0], [1, 0], [1, 0]]
   \<and> folder_indices (snd (rebuild_index good_world initial_state))
       = [(''documents_hr'', [0, 1]), (''documents_tech'', [2])]"
proof -
  have a: "scan_all good_world \<noteq> []" by code_simp
  have b: "model_loads good_world (detect_language (sample_texts (scan_all good_world)))" by code_simp
  have c: "all_chunks (process_folders good_world (scan_all good_world))
             = [ustr ''leave policy'', ustr ''pay policy'', ustr ''api description'']" by code_simp
  have d: "create_embeddings good_world (detect_language (sample_texts (scan_all good_world)))
             [ustr ''leave policy'', ustr ''pay policy'', ustr ''api description''] = Some [[1, 0], [1, 0], [1, 0]]"
    by code_simp
  have e: "folder_indices_temp (process_folders good_world (scan_all good_world))
             = [(''documents_hr'', [0, 1]), (''documents_tech'', [2])]" by code_simp
  have f: "\<not> faiss_fails good_world" by (simp add: good_world_def)
  have r: "rebuild_index good_world initial_state =
      (None, initial_state\<lparr>global_chunks := [ustr ''leave policy'', ustr ''pay policy'', ustr ''api description''],
         global_index := Some [[1, 0], [1, 0], [1, 0]],
         global_embed_model := Some (detect_language (sample_texts (scan_all good_world))),
         chunk_metadata := all_metadata (process_folders good_world (scan_all good_world)),
         folder_indices := [(''documents_hr'', [0, 1]), (''documents_tech'', [2])],
         last_index_update := Some (clock good_world (Suc (Suc (Suc 0)))),
         index_stats := acc_stats (process_folders good_world (scan_all good_world))\<rparr>)"
    using a b c d e f by (simp add: rebuild_index_def Let_def build_faiss_def normalize_L2_def)
  have ok: "fst (rebuild_index good_world initial_state) = None" by (simp add: r)
  have contract: "\<forall>model b vs. encode good_world model b = Some vs \<longrightarrow> length vs = length b"
    by (auto simp: good_world_def)
  from successful_build_well_formed[OF ok contract]
  have wf: "snapshot_wf (snd (rebuild_index good_world initial_state))" by blast
  from ok wf show ?thesis by (simp add: r)
qed

section \<open>Properties of the retriever\<close>

text \<open>
  C2. \<^verbatim>\<open>retrieve_hierarchical\<close> returns a list on every input. It is the empty list when no
  index or no embedding model is published, when the encoder raises on the query, and whenever
  anything inside the \<^verbatim>\<open>try\<close> block raises; otherwise it is the block's result.
\<close>

theorem retrieve_hierarchical_never_raises:
  "(global_index st = None \<or> global_embed_model st = None
      \<longrightarrow> retrieve_hierarchical st w query top_k_folders top_k_chunks = [])
   \<and> (\<forall>index model. global_index st = Some index \<and> global_embed_model st = Some model
        \<longrightarrow> (encode w model [query] = None
              \<longrightarrow> retrieve_hierarchical st w query top_k_folders top_k_chunks = [])
          \<and> (\<forall>e. retrieve_try st w index model query top_k_folders top_k_chunks = Inl e
              \<longrightarrow> retrieve_hierarchical st w query top_k_folders top_k_chunks = [])
          \<and> (\<forall>results. retrieve_try st w index model query top_k_folders top_k_chunks = Inr results
              \<longrightarrow> retrieve_hierarchical st w query top_k_folders top_k_chunks = results))"
  by (auto simp: retrieve_hierarchical_def retrieve_try_def split: option.splits)

theorem retrieve_hierarchical_never_raises_witness:
  "global_index initial_state = None
   \<and> retrieve_hierarchical initial_state good_world (ustr ''q'') TOP_K_FOLDERS TOP_K_CHUNKS = []
   \<and> encode mute_world ''m'' [ustr ''q''] = None
   \<and> retrieve_hierarchical st_ab mute_world (ustr ''q'') TOP_K_FOLDERS TOP_K_CHUNKS = []
   \<and> retrieve_try st_dangling good_world [[1, 0], [0, 1], [4/5, 3/5], [3/5, 4/5]] ''m'' (ustr ''q'')
         TOP_K_FOLDERS TOP_K_CHUNKS = Inl RuntimeError
   \<and> retrieve_hierarchical st_dangling good_world (ustr ''q'') TOP_K_FOLDERS TOP_K_CHUNKS = []"
proof -
  have n: "global_index initial_state = None" by (simp add: initial_state_def)
  have m: "encode mute_world ''m'' [ustr ''q''] = None" by (simp add: mute_world_def)
  have i: "global_index st_ab = Some [[1, 0], [0, 1], [4/5, 3/5], [3/5, 4/5]]
           \<and> global_embed_model st_ab = Some ''m''" by (simp add: st_ab_def)
  have j: "global_index st_dangling = Some [[1, 0], [0, 1], [4/5, 3/5], [3/5, 4/5]]
           \<and> global_embed_model st_dangling = Some ''m''" by (simp add: st_dangling_def st_ab_def)
  have d: "retrieve_try st_dangling good_world [[1, 0], [0, 1], [4/5, 3/5], [3/5, 4/5]] ''m'' (ustr ''q'')
             TOP_K_FOLDERS TOP_K_CHUNKS = Inl RuntimeError"
    by (simp add: retrieve_try_def st_dangling_def st_ab_def good_world_def normalize_L2_def
          top_folders_of_def folder_score_def reconstruct_def)
  from retrieve_hierarchical_never_raises[of initial_state good_world "ustr ''q''" TOP_K_FOLDERS TOP_K_CHUNKS] n
  have a: "retrieve_hierarchical initial_state good_world (ustr ''q'') TOP_K_FOLDERS TOP_K_CHUNKS = []" by blast
  from retrieve_hierarchical_never_raises[of st_ab mute_world "ustr ''q''" TOP_K_FOLDERS TOP_K_CHUNKS] i m
  have b: "retrieve_hierarchical st_ab mute_world (ustr ''q'') TOP_K_FOLDERS TOP_K_CHUNKS = []" by blast
  from retrieve_hierarchical_never_raises[of st_dangling good_world "ustr ''q''" TOP_K_FOLDERS TOP_K_CHUNKS] j d
  have c: "retrieve_hierarchical st_dangling good_world (ustr ''q'') TOP_K_FOLDERS TOP_K_CHUNKS = []" by blast
  from n m d a b c show ?thesis by blast
qed

text \<open>
  What every \<^verbatim>\<open>np.argsort\<close> result gives, whatever it does with equal values: the values at
  its positions are the sorted values, and the reversed prefix taken at line 881 holds different
  positions of the array, \<open>min k n\<close> of them, with the \<open>k\<close> highest values in descending order.
\<close>

lemma is_argsort_mset:
  assumes "is_argsort a p"
  shows "mset p = mset [0 ..< length a]"
proof -
  from assms have "sort p = [0 ..< length a]" by (simp add: is_argsort_def)
  then have "mset (sort p) = mset [0 ..< length a]" by simp
  then show ?thesis by simp
qed

lemma scores_of_argsort:
  assumes "is_argsort a p"
  shows "map ((!) a) p = sort a"
proof -
  have "mset (map ((!) a) p) = image_mset ((!) a) (mset p)" by simp
  also have "\<dots> = image_mset ((!) a) (mset [0 ..< length a])"
    by (simp only: is_argsort_mset[OF assms])
  also have "\<dots> = mset (map ((!) a) [0 ..< length a])" by simp
  also have "\<dots> = mset a" by (simp only: map_nth)
  finally have m: "mset (map ((!) a) p) = mset a" .
  from assms have "sorted (map ((!) a) p)" by (simp add: is_argsort_def)
  with m show ?thesis by (rule properties_for_sort[symmetric])
qed

lemma top_indices_props:
  assumes "0 \<le> k" and "is_argsort a (argsort w a)"
  shows "top_indices w a k = take (nat k) (rev (argsort w a))"
    and "distinct (top_indices w a k)"
    and "set (top_indices w a k) \<subseteq> {..<length a}"
    and "length (top_indices w a k) = min (nat k) (length a)"
    and "map ((!) a) (top_indices w a k) = take (nat k) (rev (sort a))"
proof -
  note m = is_argsort_mset[OF assms(2)]
  have d: "distinct (argsort w a)" using mset_eq_imp_distinct_iff[OF m] by simp
  have s: "set (argsort w a) = {..<length a}" using mset_eq_setD[OF m] by auto
  have l: "length (argsort w a) = length a" using mset_eq_length[OF m] by simp
  show eq: "top_indices w a k = take (nat k) (rev (argsort w a))"
    using assms(1) by (simp add: top_indices_def py_prefix_def)
  show "distinct (top_indices w a k)"
    unfolding eq by (rule distinct_take) (simp add: d)
  have "set (top_indices w a k) \<subseteq> set (rev (argsort w a))" unfolding eq by (rule set_take_subset)
  then show "set (top_indices w a k) \<subseteq> {..<length a}" using s by simp
  show "length (top_indices w a k) = min (nat k) (length a)"
    unfolding eq by (simp add: l min.commute)
  show "map ((!) a) (top_indices w a k) = take (nat k) (rev (sort a))"
    unfolding eq by (simp only: scores_of_argsort[OF assms(2), symmetric] rev_map take_map)
qed

lemma map_err_Inr:
  assumes "map_err f xs = Inr ys"
  shows "length ys = length xs \<and> (\<forall>i < length xs. f (xs ! i) = Inr (ys ! i))"
  using assms
proof (induction xs arbitrary: ys)
  case Nil
  then show ?case by simp
next
  case (Cons x xs)
  from Cons.prems obtain y ys' where y: "f x = Inr y" and ys': "map_err f xs = Inr ys'" and ys: "ys = y # ys'"
    by (auto split: sum.splits)
  from Cons.IH[OF ys'] y ys show ?case by (auto simp: nth_Cons split: nat.splits)
qed

lemma reconstruct_all:
  assumes "map_err (reconstruct index) chunk_indices = Inr embeddings"
  shows "embeddings = map ((!) index) chunk_indices"
proof (rule nth_equalityI)
  from map_err_Inr[OF assms] show "length embeddings = length (map ((!) index) chunk_indices)" by simp
  fix i assume "i < length embeddings"
  with map_err_Inr[OF assms] have "reconstruct index (chunk_indices ! i) = Inr (embeddings ! i)"
    and "i < length chunk_indices" by simp_all
  then show "embeddings ! i = map ((!) index) chunk_indices ! i"
    by (auto simp: reconstruct_def split: if_splits)
qed

lemma np_dot_single:
  assumes "np_dot A [q] = Inr similarities"
  shows "similarities = map (\<lambda>a. inner_product a q) A"
  using assms by (auto simp: np_dot_def concat_map_singleton split: if_splits)

lemma collect_fresh:
  assumes "collect st chunk_indices similarities tops (results, seen) = Inr (results', seen')"
    and "distinct (map (\<lambda>l. global_chunks st ! (chunk_indices ! l)) tops)"
    and "\<forall>l \<in> set tops. global_chunks st ! (chunk_indices ! l) \<notin> seen"
  shows "results' = results @ map (result_at st chunk_indices similarities) tops"
  using assms
proof (induction tops arbitrary: results seen)
  case Nil
  then show ?case by simp
next
  case (Cons l tops)
  let ?chunk = "global_chunks st ! (chunk_indices ! l)"
  from Cons.prems(3) have fresh: "?chunk \<notin> seen" by simp
  from Cons.prems(1) fresh
  have rest: "collect st chunk_indices similarities tops
                (results @ [result_at st chunk_indices similarities l], insert ?chunk seen)
              = Inr (results', seen')"
    by (auto simp: list_get_def result_at_def Let_def split: if_splits sum.splits)
  from Cons.prems(2) have "?chunk \<notin> (\<lambda>l. global_chunks st ! (chunk_indices ! l)) ` set tops"
    by simp
  then have "\<forall>l' \<in> set tops. global_chunks st ! (chunk_indices ! l') \<noteq> ?chunk"
    by (metis image_eqI)
  then have "\<forall>l' \<in> set tops. global_chunks st ! (chunk_indices ! l') \<notin> insert ?chunk seen"
    using Cons.prems(3) by simp
  moreover have "distinct (map (\<lambda>l. global_chunks st ! (chunk_indices ! l)) tops)"
    using Cons.prems(2) by simp
  ultimately show ?case using Cons.IH[OF rest] by simp
qed

text \<open>
  C3, as amended. For a selected folder, a query encoded as one vector and a limit
  \<open>top_k_chunks \<ge> 0\<close>, whatever \<^verbatim>\<open>np.argsort\<close> does with equal values: when the folder's
  chunk texts are pairwise different and none was returned before, the results appended for the
  folder are those at \<open>min top_k_chunks n\<close> different positions of the folder, and their
  scores are the highest similarities of the folder in descending order. Nothing is said
  about the order of equal scores.
\<close>

theorem search_folder_top_chunks:
  assumes "map_of (folder_indices st) folder_name = Some chunk_indices"
    and "0 \<le> top_k_chunks"
    and "search_folder st w index [q] top_k_chunks folder_name (results, seen) = Inr (results', seen')"
    and "distinct (map ((!) (global_chunks st)) chunk_indices)"
    and "\<forall>idx \<in> set chunk_indices. global_chunks st ! idx \<notin> seen"
    and "is_argsort (map (\<lambda>idx. inner_product (index ! idx) q) chunk_indices)
           (argsort w (map (\<lambda>idx. inner_product (index ! idx) q) chunk_indices))"
  shows "\<exists>similarities tops new.
           similarities = map (\<lambda>idx. inner_product (index ! idx) q) chunk_indices
         \<and> results' = results @ new
         \<and> new = map (result_at st chunk_indices similarities) tops
         \<and> distinct tops
         \<and> set tops \<subseteq> {..<length chunk_indices}
         \<and> length new = min (nat top_k_chunks) (length chunk_indices)
         \<and> map res_score new = take (nat top_k_chunks) (rev (sort similarities))"
proof -
  define similarities where "similarities = map (\<lambda>idx. inner_product (index ! idx) q) chunk_indices"
  define tops where "tops = top_indices w similarities top_k_chunks"
  from assms(1,3) obtain embeddings sims where
    emb: "map_err (reconstruct index) chunk_indices = Inr embeddings"
    and dot: "np_dot embeddings [q] = Inr sims"
    and col: "collect st chunk_indices sims (top_indices w sims top_k_chunks) (results, seen) = Inr (results', seen')"
    by (auto simp: search_folder_def split: sum.splits)
  from reconstruct_all[OF emb] np_dot_single[OF dot] have sims: "sims = similarities"
    by (simp add: similarities_def comp_def)
  have ok: "is_argsort similarities (argsort w similarities)"
    using assms(6) by (simp only: similarities_def)
  note tp = top_indices_props[OF assms(2) ok]
  have len: "length similarities = length chunk_indices" by (simp add: similarities_def)
  have inj: "inj_on (\<lambda>l. global_chunks st ! (chunk_indices ! l)) {..<length chunk_indices}"
  proof (rule inj_onI)
    fix x y assume "x \<in> {..<length chunk_indices}" "y \<in> {..<length chunk_indices}"
      and "global_chunks st ! (chunk_indices ! x) = global_chunks st ! (chunk_indices ! y)"
    then show "x = y"
      using nth_eq_iff_index_eq[OF assms(4), of x y] by simp
  qed
  have sub: "set tops \<subseteq> {..<length chunk_indices}" using tp(3) len by (simp add: tops_def)
  have d: "distinct (map (\<lambda>l. global_chunks st ! (chunk_indices ! l)) tops)"
    using tp(2) sub inj by (auto simp: distinct_map tops_def intro: inj_on_subset)
  have f: "\<forall>l \<in> set tops. global_chunks st ! (chunk_indices ! l) \<notin> seen"
    using sub assms(5) by (auto simp: subset_iff)
  from collect_fresh[OF col[unfolded sims, folded tops_def] d f]
  have r: "results' = results @ map (result_at st chunk_indices similarities) tops" .
  have sc: "map res_score (map (result_at st chunk_indices similarities) tops)
              = map ((!) similarities) tops"
    by (simp add: result_at_def Let_def comp_def)
  have dt: "distinct tops" using tp(2) by (simp add: tops_def)
  have lt: "length tops = min (nat top_k_chunks) (length chunk_indices)"
    using tp(4) len by (simp add: tops_def)
  have st: "map ((!) similarities) tops = take (nat top_k_chunks) (rev (sort similarities))"
    using tp(5) by (simp add: tops_def)
  show ?thesis
    using r dt sub lt st sc
    by (intro exI[of _ similarities] exI[of _ tops]
          exI[of _ "map (result_at st chunk_indices similarities) tops"])
       (simp add: similarities_def [symmetric])
qed

text \<open>Unfolding the retriever on a concrete state.\<close>

lemmas retrieval_defs = retrieve_hierarchical_def retrieve_try_def normalize_L2_def
  top_folders_of_def folder_score_def reconstruct_def np_dot_def inner_product_def
  py_prefix_def search_folder_def list_get_def mk_meta_def

lemma good_world_encode: "encode good_world model [query] = Some [[1, 0]]"
  by (simp add: good_world_def)

theorem search_folder_top_chunks_witness:
  "map_of (folder_indices st_ab) ''B'' = Some [2, 3]
   \<and> search_folder st_ab good_world [[1, 0], [0, 1], [4/5, 3/5], [3/5, 4/5]] [[1, 0]] 1 ''B'' ([], {})
       = Inr ([\<lparr>res_chunk = ustr ''b1'', res_folder = ''B'', res_filename = ''b.txt'', res_score = 4/5\<rparr>],
              {ustr ''b1''})
   \<and> map res_score [\<lparr>res_chunk = ustr ''b1'', res_folder = ''B'', res_filename = ''b.txt'', res_score = 4/5\<rparr>]
       = take (nat 1) (rev (sort (map (\<lambda>idx. inner_product ([[1, 0], [0, 1], [4/5, 3/5], [3/5, 4/5]] ! idx) [1, 0]) [2, 3])))"
proof -
  have t: "top_indices good_world [4/5, 3/5] 1 = [0]" by code_simp
  have h1: "map_of (folder_indices st_ab) ''B'' = Some [2, 3]" by (simp add: st_ab_def)
  have h2: "(0::int) \<le> 1" by simp
  have h3: "search_folder st_ab good_world [[1, 0], [0, 1], [4/5, 3/5], [3/5, 4/5]] [[1, 0]] 1 ''B'' ([], {})
     = Inr ([\<lparr>res_chunk = ustr ''b1'', res_folder = ''B'', res_filename = ''b.txt'', res_score = 4/5\<rparr>],
            {ustr ''b1''})"
    by (simp add: retrieval_defs st_ab_def t)
  have h4: "distinct (map ((!) (global_chunks st_ab)) [2, 3])" by (simp add: st_ab_def ustr_def)
  have h5: "\<forall>idx \<in> set [2, 3]. global_chunks st_ab ! idx \<notin> {}" by simp
  have h6: "is_argsort (map (\<lambda>idx. inner_product ([[1, 0], [0, 1], [4/5, 3/5], [3/5, 4/5]] ! idx) [1, 0]) [2, 3])
              (argsort good_world
                 (map (\<lambda>idx. inner_product ([[1, 0], [0, 1], [4/5, 3/5], [3/5, 4/5]] ! idx) [1, 0]) [2, 3]))"
    by code_simp
  from search_folder_top_chunks[OF h1 h2 h3 h4 h5 h6] obtain similarities tops new where
    a: "similarities = map (\<lambda>idx. inner_product ([[1, 0], [0, 1], [4/5, 3/5], [3/5, 4/5]] ! idx) [1, 0]) [2, 3]"
    and b: "[\<lparr>res_chunk = ustr ''b1'', res_folder = ''B'', res_filename = ''b.txt'', res_score = 4/5\<rparr>] = [] @ new"
    and c: "map res_score new = take (nat 1) (rev (sort similarities))" by blast
  from b have n: "new = [\<lparr>res_chunk = ustr ''b1'', res_folder = ''B'', res_filename = ''b.txt'', res_score = 4/5\<rparr>]"
    by simp
  have "map res_score [\<lparr>res_chunk = ustr ''b1'', res_folder = ''B'', res_filename = ''b.txt'', res_score = 4/5\<rparr>]
       = take (nat 1) (rev (sort (map (\<lambda>idx. inner_product ([[1, 0], [0, 1], [4/5, 3/5], [3/5, 4/5]] ! idx) [1, 0]) [2, 3])))"
    using c unfolding n a .
  with h1 h3 show ?thesis by blast
qed

text \<open>
  The claim C3 as stated fails on a folder whose two chunks, of different embeddings, score the
  same 3/5 against the query. \<^verbatim>\<open>np.argsort\<close> returns the positions 0, 1 on the two equal
  values (a result that \<open>is_argsort\<close> admits); with one chunk asked for, the specification's
  stable descending order selects position 0 (``first''), the code selects position 1 and
  returns ``second''.
\<close>

theorem stable_tie_break_counterexample:
  "argsort good_world [3/5, 3/5] = [0, 1]
   \<and> is_argsort [3/5, 3/5] (argsort good_world [3/5, 3/5])
   \<and> top_indices good_world [3/5, 3/5] 1 = [1]
   \<and> spec_top_indices [3/5, 3/5] 1 = [0]
   \<and> retrieve_hierarchical st_tie good_world (ustr ''q'') 1 1
       = [\<lparr>res_chunk = ustr ''second'', res_folder = ''A'', res_filename = ''b.txt'', res_score = 3/5\<rparr>]"
proof -
  have t0: "argsort good_world [3/5, 3/5] = [0, 1]" by code_simp
  have t3: "is_argsort [3/5, 3/5] (argsort good_world [3/5, 3/5])" by code_simp
  have t1: "top_indices good_world [3/5, 3/5] 1 = [1]" by code_simp
  have t2: "spec_top_indices [3/5, 3/5] 1 = [0]" by code_simp
  have "retrieve_hierarchical st_tie good_world (ustr ''q'') 1 1
     = [\<lparr>res_chunk = ustr ''second'', res_folder = ''A'', res_filename = ''b.txt'', res_score = 3/5\<rparr>]"
    by (simp add: retrieval_defs st_tie_def good_world_encode t1 sorted_desc_def)
  with t0 t1 t2 t3 show ?thesis by blast
qed

lemma collect_subseq:
  assumes "collect st chunk_indices similarities tops (results, seen) = Inr (results', seen')"
  shows "\<exists>kept. subseq kept tops \<and> results' = results @ map (result_at st chunk_indices similarities) kept"
  using assms
proof (induction tops arbitrary: results seen)
  case Nil
  then show ?case by simp
next
  case (Cons l tops)
  let ?chunk = "global_chunks st ! (chunk_indices ! l)"
  show ?case
  proof (cases "?chunk \<in> seen")
    case True
    with Cons.prems have "collect st chunk_indices similarities tops (results, seen) = Inr (results', seen')"
      by (auto simp: list_get_def split: if_splits sum.splits)
    from Cons.IH[OF this] obtain kept where "subseq kept tops"
      and "results' = results @ map (result_at st chunk_indices similarities) kept" by blast
    then show ?thesis by (intro exI[of _ kept]) (simp add: list_emb_Cons)
  next
    case False
    with Cons.prems
    have "collect st chunk_indices similarities tops
            (results @ [result_at st chunk_indices similarities l], insert ?chunk seen)
          = Inr (results', seen')"
      by (auto simp: list_get_def result_at_def Let_def split: if_splits sum.splits)
    from Cons.IH[OF this] obtain kept where "subseq kept tops"
      and "results' = (results @ [result_at st chunk_indices similarities l])
                        @ map (result_at st chunk_indices similarities) kept" by blast
    then show ?thesis by (intro exI[of _ "l # kept"]) simp
  qed
qed

lemma search_folder_part:
  assumes "search_folder st w index q_vec top_k_chunks folder_name (results, seen) = Inr (results', seen')"
  shows "\<exists>part. from_folder st w index q_vec top_k_chunks folder_name part \<and> results' = results @ part"
proof -
  from assms obtain chunk_indices embeddings sims where
    f: "map_of (folder_indices st) folder_name = Some chunk_indices"
    and emb: "map_err (reconstruct index) chunk_indices = Inr embeddings"
    and dot: "np_dot embeddings q_vec = Inr sims"
    and col: "collect st chunk_indices sims (top_indices w sims top_k_chunks) (results, seen) = Inr (results', seen')"
    by (auto simp: search_folder_def split: option.splits sum.splits)
  from collect_subseq[OF col] obtain kept where k: "subseq kept (top_indices w sims top_k_chunks)"
    and r: "results' = results @ map (result_at st chunk_indices sims) kept" by blast
  from f dot k have "from_folder st w index q_vec top_k_chunks folder_name
                       (map (result_at st chunk_indices sims) kept)"
    unfolding from_folder_def reconstruct_all[OF emb] by blast
  with r show ?thesis by blast
qed

lemma search_folders_parts:
  assumes "search_folders st w index q_vec top_k_chunks names (results, seen) = Inr (results', seen')"
  shows "\<exists>parts. list_all2 (from_folder st w index q_vec top_k_chunks) names parts
                \<and> results' = results @ concat parts"
  using assms
proof (induction names arbitrary: results seen)
  case Nil
  then show ?case by simp
next
  case (Cons folder_name names)
  from Cons.prems obtain mid seen_mid where
    one: "search_folder st w index q_vec top_k_chunks folder_name (results, seen) = Inr (mid, seen_mid)"
    and rest: "search_folders st w index q_vec top_k_chunks names (mid, seen_mid) = Inr (results', seen')"
    by (auto split: sum.splits)
  from search_folder_part[OF one] obtain part where
    p: "from_folder st w index q_vec top_k_chunks folder_name part" and m: "mid = results @ part" by blast
  from Cons.IH[OF rest] obtain parts where
    ps: "list_all2 (from_folder st w index q_vec top_k_chunks) names parts"
    and r: "results' = mid @ concat parts" by blast
  from p ps m r show ?case by (intro exI[of _ "part # parts"]) simp
qed

text \<open>
  Stage 1: every scored folder is a folder of the index with its own score, and the folders
  selected are a prefix of all scored folders arranged by descending score, equal scores in
  dictionary order.
\<close>

lemma score_folders_origin:
  assumes "score_folders index q_vec findices acc = Inr folder_scores"
    and "(folder_name, s) \<in> set folder_scores"
  shows "(folder_name, s) \<in> set acc
       \<or> (\<exists>chunk_indices. (folder_name, chunk_indices) \<in> set findices
              \<and> folder_score index q_vec chunk_indices = Inr s)"
  using assms
proof (induction findices arbitrary: acc)
  case Nil
  then show ?case by simp
next
  case (Cons entry findices)
  obtain name chunk_indices where entry: "entry = (name, chunk_indices)" by (cases entry)
  show ?case
  proof (cases "chunk_indices = []")
    case True
    with Cons.prems(1) entry have "score_folders index q_vec findices acc = Inr folder_scores" by simp
    from Cons.IH[OF this Cons.prems(2)] show ?thesis by auto
  next
    case False
    with Cons.prems(1) entry obtain sc where
      sc: "folder_score index q_vec chunk_indices = Inr sc"
      and rest: "score_folders index q_vec findices (AList.update name sc acc) = Inr folder_scores"
      by (auto split: sum.splits)
    from Cons.IH[OF rest Cons.prems(2)] show ?thesis
    proof
      assume "(folder_name, s) \<in> set (AList.update name sc acc)"
      then have "(folder_name, s) \<in> insert (name, sc) (set acc)"
        using set_update_subset[of name sc acc] by blast
      with sc entry show ?thesis by auto
    next
      assume "\<exists>chunk_indices. (folder_name, chunk_indices) \<in> set findices
                \<and> folder_score index q_vec chunk_indices = Inr s"
      then show ?thesis by auto
    qed
  qed
qed

lemma ranked_sorted_desc: "ranked (sorted_desc folder_scores)"
proof -
  have "sorted (map (\<lambda>x. - snd x) (sort_key (\<lambda>x. - snd x) folder_scores))"
    by (rule sorted_sort_key)
  then show ?thesis by (simp add: ranked_def sorted_desc_def sorted_map)
qed

lemma stable_sorted_desc:
  "filter (\<lambda>x. snd x = s) (sorted_desc folder_scores) = filter (\<lambda>x. snd x = s) folder_scores"
  using sort_key_stable[of "\<lambda>x. - snd x" "- s" folder_scores] by (simp add: sorted_desc_def)

lemma py_prefix_is_prefix: "\<exists>rest. xs = py_prefix k xs @ rest"
  by (metis append_take_drop_id py_prefix_def)

lemma length_py_prefix: "0 \<le> k \<Longrightarrow> length (py_prefix k xs) = min (nat k) (length xs)"
  by (simp add: py_prefix_def min.commute)

text \<open>
  C10. Whenever the \<^verbatim>\<open>try\<close> block of \<^verbatim>\<open>retrieve_hierarchical\<close> returns: the folders
  selected are the first \<open>top_k_folders\<close> of all scored folders arranged by descending folder score
  (equal scores in dictionary order), and the result list is the concatenation, in that rank
  order, of one part for each selected folder, each part made of the results at a subsequence of
  that folder's top positions: a candidate dropped as a duplicate is not replaced. On
  \<open>st_low_first\<close> folder \<open>B\<close> outranks folder \<open>A\<close>, which precedes it in the dictionary, and the
  scores come out as 1, 0, 4/5, 3/5: both results of the lower-ranked \<open>A\<close> score higher than the
  last result of \<open>B\<close> and still follow it. On \<open>st_dup\<close>, with two chunks asked for in each
  folder, \<open>A\<close> has three chunks and contributes one result, its best chunk being a duplicate of
  a chunk of \<open>B\<close>.
\<close>

theorem results_grouped_by_folder_rank:
  "(\<forall>results. retrieve_try st w index model query top_k_folders top_k_chunks = Inr results \<longrightarrow>
      (\<exists>q_raw folder_scores top_folders rest parts.
          encode w model [query] = Some q_raw
        \<and> score_folders index (map normalize_L2 q_raw) (folder_indices st) [] = Inr folder_scores
        \<and> (\<forall>(folder_name, s) \<in> set folder_scores.
              \<exists>chunk_indices. (folder_name, chunk_indices) \<in> set (folder_indices st)
                 \<and> folder_score index (map normalize_L2 q_raw) chunk_indices = Inr s)
        \<and> mset (top_folders @ rest) = mset folder_scores
        \<and> ranked (top_folders @ rest)
        \<and> (\<forall>s. filter (\<lambda>x. snd x = s) (top_folders @ rest) = filter (\<lambda>x. snd x = s) folder_scores)
        \<and> (0 \<le> top_k_folders \<longrightarrow> length top_folders = min (nat top_k_folders) (length folder_scores))
        \<and> list_all2 (from_folder st w index (map normalize_L2 q_raw) top_k_chunks) (map fst top_folders) parts
        \<and> results = concat parts))
   \<and> map res_folder (retrieve_hierarchical st_low_first good_world (ustr ''q'') 2 2) = [''B'', ''B'', ''A'', ''A'']
   \<and> map res_score (retrieve_hierarchical st_low_first good_world (ustr ''q'') 2 2) = [1, 0, 4/5, 3/5]
   \<and> map res_folder (retrieve_hierarchical st_dup good_world (ustr ''q'') 2 2) = [''B'', ''B'', ''A'']
   \<and> map res_chunk (retrieve_hierarchical st_dup good_world (ustr ''q'') 2 2)
       = [ustr ''y'', ustr ''x'', ustr ''z'']"
proof (intro conjI allI impI)
  fix results
  assume run: "retrieve_try st w index model query top_k_folders top_k_chunks = Inr results"
  then obtain q_raw top_folders seen where
    q: "encode w model [query] = Some q_raw"
    and tf: "top_folders_of index (map normalize_L2 q_raw) (folder_indices st) top_k_folders = Inr top_folders"
    and sf: "search_folders st w index (map normalize_L2 q_raw) top_k_chunks (map fst top_folders) ([], {})
               = Inr (results, seen)"
    by (auto simp: retrieve_try_def Let_def split: option.splits sum.splits)
  from tf obtain folder_scores where
    fs: "score_folders index (map normalize_L2 q_raw) (folder_indices st) [] = Inr folder_scores"
    and top: "top_folders = py_prefix top_k_folders (sorted_desc folder_scores)"
    by (auto simp: top_folders_of_def split: sum.splits)
  from py_prefix_is_prefix[of "sorted_desc folder_scores" top_k_folders] top
  obtain rest where rest: "sorted_desc folder_scores = top_folders @ rest" by auto
  have o: "\<forall>(folder_name, s) \<in> set folder_scores.
              \<exists>chunk_indices. (folder_name, chunk_indices) \<in> set (folder_indices st)
                 \<and> folder_score index (map normalize_L2 q_raw) chunk_indices = Inr s"
    using score_folders_origin[OF fs] by auto
  have m: "mset (top_folders @ rest) = mset folder_scores"
    unfolding rest[symmetric] by (simp add: sorted_desc_def)
  have r: "ranked (top_folders @ rest)"
    unfolding rest[symmetric] by (rule ranked_sorted_desc)
  have s: "\<forall>s. filter (\<lambda>x. snd x = s) (top_folders @ rest) = filter (\<lambda>x. snd x = s) folder_scores"
    unfolding rest[symmetric] by (simp add: stable_sorted_desc)
  have l: "0 \<le> top_k_folders \<longrightarrow> length top_folders = min (nat top_k_folders) (length folder_scores)"
    using length_py_prefix[of top_k_folders "sorted_desc folder_scores"] top
    by (simp add: sorted_desc_def)
  from search_folders_parts[OF sf] obtain parts where
    p: "list_all2 (from_folder st w index (map normalize_L2 q_raw) top_k_chunks) (map fst top_folders) parts"
    and c: "results = concat parts" by auto
  from q fs o m r s l p c
  show "\<exists>q_raw folder_scores top_folders rest parts.
          encode w model [query] = Some q_raw
        \<and> score_folders index (map normalize_L2 q_raw) (folder_indices st) [] = Inr folder_scores
        \<and> (\<forall>(folder_name, s) \<in> set folder_scores.
              \<exists>chunk_indices. (folder_name, chunk_indices) \<in> set (folder_indices st)
                 \<and> folder_score index (map normalize_L2 q_raw) chunk_indices = Inr s)
        \<and> mset (top_folders @ rest) = mset folder_scores
        \<and> ranked (top_folders @ rest)
        \<and> (\<forall>s. filter (\<lambda>x. snd x = s) (top_folders @ rest) = filter (\<lambda>x. snd x = s) folder_scores)
        \<and> (0 \<le> top_k_folders \<longrightarrow> length top_folders = min (nat top_k_folders) (length folder_scores))
        \<and> list_all2 (from_folder st w index (map normalize_L2 q_raw) top_k_chunks) (map fst top_folders) parts
        \<and> results = concat parts"
    by blast
next
  have ta: "top_indices good_world [1, 0] 2 = [0, 1]" by code_simp
  have tb: "top_indices good_world [4/5, 3/5] 2 = [0, 1]" by code_simp
  have s: "sorted_desc [(''A'', 4/5), (''B'', 1)] = [(''B'', 1), (''A'', 4/5)]" by code_simp
  have r: "retrieve_hierarchical st_low_first good_world (ustr ''q'') 2 2 =
     [\<lparr>res_chunk = ustr ''b1'', res_folder = ''B'', res_filename = ''b.txt'', res_score = 1\<rparr>,
      \<lparr>res_chunk = ustr ''b2'', res_folder = ''B'', res_filename = ''b.txt'', res_score = 0\<rparr>,
      \<lparr>res_chunk = ustr ''a1'', res_folder = ''A'', res_filename = ''a.txt'', res_score = 4/5\<rparr>,
      \<lparr>res_chunk = ustr ''a2'', res_folder = ''A'', res_filename = ''a.txt'', res_score = 3/5\<rparr>]"
    by (simp add: retrieval_defs st_low_first_def good_world_encode ta tb s ustr_def)
  show "map res_folder (retrieve_hierarchical st_low_first good_world (ustr ''q'') 2 2) = [''B'', ''B'', ''A'', ''A'']"
    and "map res_score (retrieve_hierarchical st_low_first good_world (ustr ''q'') 2 2) = [1, 0, 4/5, 3/5]"
    by (simp_all add: r)
next
  have ta: "top_indices good_world [1, 4/5] 2 = [0, 1]" by code_simp
  have tb: "top_indices good_world [4/5, 3/5, 0] 2 = [0, 1]" by code_simp
  have s: "sorted_desc [(''A'', 4/5), (''B'', 1)] = [(''B'', 1), (''A'', 4/5)]" by code_simp
  have r: "retrieve_hierarchical st_dup good_world (ustr ''q'') 2 2 =
     [\<lparr>res_chunk = ustr ''y'', res_folder = ''B'', res_filename = ''b.txt'', res_score = 1\<rparr>,
      \<lparr>res_chunk = ustr ''x'', res_folder = ''B'', res_filename = ''b.txt'', res_score = 4/5\<rparr>,
      \<lparr>res_chunk = ustr ''z'', res_folder = ''A'', res_filename = ''a.txt'', res_score = 3/5\<rparr>]"
    by (simp add: retrieval_defs st_dup_def good_world_encode ta tb s ustr_def)
  show "map res_folder (retrieve_hierarchical st_dup good_world (ustr ''q'') 2 2) = [''B'', ''B'', ''A'']"
    and "map res_chunk (retrieve_hierarchical st_dup good_world (ustr ''q'') 2 2)
           = [ustr ''y'', ustr ''x'', ustr ''z'']"
    by (simp_all add: r)
qed

theorem results_grouped_by_folder_rank_witness:
  "retrieve_try st_low_first good_world [[4/5, 3/5], [3/5, 4/5], [1, 0], [0, 1]] ''m'' (ustr ''q'') 2 2 =
     Inr [\<lparr>res_chunk = ustr ''b1'', res_folder = ''B'', res_filename = ''b.txt'', res_score = 1\<rparr>,
          \<lparr>res_chunk = ustr ''b2'', res_folder = ''B'', res_filename = ''b.txt'', res_score = 0\<rparr>,
          \<lparr>res_chunk = ustr ''a1'', res_folder = ''A'', res_filename = ''a.txt'', res_score = 4/5\<rparr>,
          \<lparr>res_chunk = ustr ''a2'', res_folder = ''A'', res_filename = ''a.txt'', res_score = 3/5\<rparr>]
   \<and> (\<exists>q_raw folder_scores top_folders rest parts.
          encode good_world ''m'' [ustr ''q''] = Some q_raw
        \<and> score_folders [[4/5, 3/5], [3/5, 4/5], [1, 0], [0, 1]] (map normalize_L2 q_raw)
              (folder_indices st_low_first) [] = Inr folder_scores
        \<and> mset (top_folders @ rest) = mset folder_scores
        \<and> ranked (top_folders @ rest)
        \<and> list_all2 (from_folder st_low_first good_world [[4/5, 3/5], [3/5, 4/5], [1, 0], [0, 1]]
                       (map normalize_L2 q_raw) 2)
              (map fst top_folders) parts
        \<and> [\<lparr>res_chunk = ustr ''b1'', res_folder = ''B'', res_filename = ''b.txt'', res_score = 1\<rparr>,
            \<lparr>res_chunk = ustr ''b2'', res_folder = ''B'', res_filename = ''b.txt'', res_score = 0\<rparr>,
            \<lparr>res_chunk = ustr ''a1'', res_folder = ''A'', res_filename = ''a.txt'', res_score = 4/5\<rparr>,
            \<lparr>res_chunk = ustr ''a2'', res_folder = ''A'', res_filename = ''a.txt'', res_score = 3/5\<rparr>]
           = concat parts)"
proof -
  have ta: "top_indices good_world [1, 0] 2 = [0, 1]" by code_simp
  have tb: "top_indices good_world [4/5, 3/5] 2 = [0, 1]" by code_simp
  have s: "sorted_desc [(''A'', 4/5), (''B'', 1)] = [(''B'', 1), (''A'', 4/5)]" by code_simp
  have run: "retrieve_try st_low_first good_world [[4/5, 3/5], [3/5, 4/5], [1, 0], [0, 1]] ''m'' (ustr ''q'') 2 2 =
     Inr [\<lparr>res_chunk = ustr ''b1'', res_folder = ''B'', res_filename = ''b.txt'', res_score = 1\<rparr>,
          \<lparr>res_chunk = ustr ''b2'', res_folder = ''B'', res_filename = ''b.txt'', res_score = 0\<rparr>,
          \<lparr>res_chunk = ustr ''a1'', res_folder = ''A'', res_filename = ''a.txt'', res_score = 4/5\<rparr>,
          \<lparr>res_chunk = ustr ''a2'', res_folder = ''A'', res_filename = ''a.txt'', res_score = 3/5\<rparr>]"
    by (simp add: retrieval_defs st_low_first_def good_world_encode ta tb s ustr_def)
  from results_grouped_by_folder_rank[of st_low_first good_world "[[4/5, 3/5], [3/5, 4/5], [1, 0], [0, 1]]"
         "''m''" "ustr ''q''" 2 2]
  have "\<forall>results. retrieve_try st_low_first good_world [[4/5, 3/5], [3/5, 4/5], [1, 0], [0, 1]] ''m''
                     (ustr ''q'') 2 2 = Inr results \<longrightarrow>
      (\<exists>q_raw folder_scores top_folders rest parts.
          encode good_world ''m'' [ustr ''q''] = Some q_raw
        \<and> score_folders [[4/5, 3/5], [3/5, 4/5], [1, 0], [0, 1]] (map normalize_L2 q_raw)
              (folder_indices st_low_first) [] = Inr folder_scores
        \<and> (\<forall>(folder_name, s) \<in> set folder_scores.
              \<exists>chunk_indices. (folder_name, chunk_indices) \<in> set (folder_indices st_low_first)
                 \<and> folder_score [[4/5, 3/5], [3/5, 4/5], [1, 0], [0, 1]] (map normalize_L2 q_raw)
                      chunk_indices = Inr s)
        \<and> mset (top_folders @ rest) = mset folder_scores
        \<and> ranked (top_folders @ rest)
        \<and> (\<forall>s. filter (\<lambda>x. snd x = s) (top_folders @ rest) = filter (\<lambda>x. snd x = s) folder_scores)
        \<and> (0 \<le> (2::int) \<longrightarrow> length top_folders = min (nat 2) (length folder_scores))
        \<and> list_all2 (from_folder st_low_first good_world [[4/5, 3/5], [3/5, 4/5], [1, 0], [0, 1]]
                       (map normalize_L2 q_raw) 2)
              (map fst top_folders) parts
        \<and> results = concat parts)"
    by (rule conjunct1)
  from this[rule_format, OF run] run show ?thesis by blast
qed

section \<open>Properties of the rebuild scheduler\<close>














end
